theory Spec2Isabelle
  imports Main "HOL-Library.Char_ord" "HOL-Library.List_Lexorder"
begin

section \<open>Values\<close>

text \<open>
  The analytics tracker (class \<open>WebsiteAnalytics\<close>) receives key-value payloads and
  binds their values to SQLite statements. A payload value is \<open>None\<close>, an integer, a
  string, or some other object (a list or a nested dict of a JSON body) that the
  \<open>sqlite3\<close> module cannot bind. Floating-point payload values are outside the model.
\<close>

datatype pyval = PNone | PInt int | PStr string | PObj

type_synonym payload = "string \<rightharpoonup> pyval"

text \<open>\<open>data.get(key, default)\<close> and \<open>data.get(key)\<close>.\<close>

definition get :: "payload \<Rightarrow> string \<Rightarrow> pyval \<Rightarrow> pyval" where
  "get data k dflt = (case data k of None \<Rightarrow> dflt | Some v \<Rightarrow> v)"

datatype sqlval = Null | Integer int | Text string

datatype exn = OperationalError | InterfaceError | OverflowError | ValueError

text \<open>
  Binding a statement parameter: \<open>None\<close> becomes NULL, a string becomes TEXT, an integer
  must fit a signed 64-bit INTEGER (otherwise \<open>OverflowError\<close>), and any other object
  raises an error of the \<open>sqlite3\<close> module.
\<close>

definition bind :: "pyval \<Rightarrow> exn + sqlval" where
  "bind v = (case v of
       PNone \<Rightarrow> Inr Null
     | PInt i \<Rightarrow> (if - (2 ^ 63) \<le> i \<and> i < 2 ^ 63 then Inr (Integer i) else Inl OverflowError)
     | PStr s \<Rightarrow> Inr (Text s)
     | PObj \<Rightarrow> Inl InterfaceError)"

text \<open>Binding a tuple of parameters fails with the first parameter that fails.\<close>

fun bind_all :: "pyval list \<Rightarrow> exn + sqlval list" where
  "bind_all [] = Inr []"
| "bind_all (v # vs) =
     (case bind v of
        Inl e \<Rightarrow> Inl e
      | Inr c \<Rightarrow> (case bind_all vs of Inl e \<Rightarrow> Inl e | Inr cs \<Rightarrow> Inr (c # cs)))"

section \<open>Decimal rendering\<close>

definition digit_char :: "nat \<Rightarrow> char" where
  "digit_char d = ''0123456789'' ! d"

fun str_nat :: "nat \<Rightarrow> string" where
  "str_nat n = (if n < 10 then [digit_char n] else str_nat (n div 10) @ [digit_char (n mod 10)])"

declare str_nat.simps [simp del]

definition str_int :: "int \<Rightarrow> string" where
  "str_int i = (if i < 0 then CHR ''-'' # str_nat (nat (- i)) else str_nat (nat i))"

text \<open>Zero padding on the left, as in \<open>%02d\<close> and \<open>%04d\<close>.\<close>

definition pad :: "nat \<Rightarrow> string \<Rightarrow> string" where
  "pad w s = replicate (w - length s) CHR ''0'' @ s"

text \<open>
  A column declared TEXT has TEXT affinity: an integer stored in it is converted to its
  decimal text. (The numeric affinities of the INTEGER and REAL columns are not modelled:
  no operation of the tracker reads those cells back.)
\<close>

definition text_affinity :: "sqlval \<Rightarrow> sqlval" where
  "text_affinity v = (case v of Integer i \<Rightarrow> Text (str_int i) | _ \<Rightarrow> v)"

section \<open>Clocks\<close>

text \<open>
  \<open>datetime.now()\<close> of the application, and the two renderings the tracker uses:
  \<open>isoformat()\<close> (the microseconds are left out when they are zero) and
  \<open>strftime('%Y-%m-%d')\<close>.
\<close>

record pydatetime =
  dt_year :: nat
  dt_month :: nat
  dt_day :: nat
  dt_hour :: nat
  dt_minute :: nat
  dt_second :: nat
  dt_microsecond :: nat

definition strftime_ymd :: "pydatetime \<Rightarrow> string" where
  "strftime_ymd t =
     pad 4 (str_nat (dt_year t)) @ ''-'' @ pad 2 (str_nat (dt_month t)) @ ''-'' @
     pad 2 (str_nat (dt_day t))"

definition isoformat :: "pydatetime \<Rightarrow> string" where
  "isoformat t =
     strftime_ymd t @ ''T'' @ pad 2 (str_nat (dt_hour t)) @ '':'' @
     pad 2 (str_nat (dt_minute t)) @ '':'' @ pad 2 (str_nat (dt_second t)) @
     (if dt_microsecond t = 0 then [] else ''.'' @ pad 6 (str_nat (dt_microsecond t)))"

text \<open>
  \<open>CURRENT_TIMESTAMP\<close> of the store, the default of both \<open>timestamp\<close> columns, and
  SQLite's \<open>DATE(timestamp)\<close>, which truncates it to the text \<open>YYYY-MM-DD\<close>.
\<close>

record sqltime =
  t_year :: nat
  t_month :: nat
  t_day :: nat
  t_hour :: nat
  t_minute :: nat
  t_second :: nat

definition sql_date :: "sqltime \<Rightarrow> string" where
  "sql_date t =
     pad 4 (str_nat (t_year t)) @ ''-'' @ pad 2 (str_nat (t_month t)) @ ''-'' @
     pad 2 (str_nat (t_day t))"

section \<open>The store\<close>

text \<open>
  The three tables the operations use, a row a record, a table the list of its rows in
  insertion order. (Table \<open>daily_stats\<close> is created by \<open>setup_database\<close> and never read
  or written.)
\<close>

record page_view =
  pv_id :: nat
  pv_session_id :: sqlval
  pv_page_url :: sqlval
  pv_page_title :: sqlval
  pv_referrer :: sqlval
  pv_user_agent :: sqlval
  pv_ip_address :: sqlval
  pv_country :: sqlval
  pv_city :: sqlval
  pv_timestamp :: sqltime
  pv_time_on_page :: sqlval
  pv_scroll_depth :: sqlval

record session =
  s_session_id :: sqlval
  s_user_id :: sqlval
  s_device_type :: sqlval
  s_browser :: sqlval
  s_os :: sqlval
  s_screen_resolution :: sqlval
  s_first_visit :: sqlval
  s_last_visit :: sqlval
  s_total_views :: int
  s_duration :: sqlval

record conversion =
  c_id :: nat
  c_session_id :: sqlval
  c_conversion_type :: sqlval
  c_conversion_value :: sqlval
  c_page_url :: sqlval
  c_form_data :: sqlval
  c_timestamp :: sqltime

record database =
  page_views :: "page_view list"
  sessions :: "session list"
  conversions :: "conversion list"

text \<open>The next value of an \<open>AUTOINCREMENT\<close> key (no operation deletes rows).\<close>

definition next_id :: "nat list \<Rightarrow> nat" where
  "next_id ids = Suc (fold max ids 0)"

section \<open>The world around one call\<close>

text \<open>
  What a call can leave behind: the committed store, the number of store handles that
  are open, and the log. A log entry keeps the fixed text of the message and the value
  formatted into it.
\<close>

datatype log_entry = Info string pyval | Error string exn

record world =
  store :: database
  handles :: nat
  logged :: "log_entry list"

text \<open>
  What a call takes from outside the program. \<open>fault\<close> says which call into the store
  raises during this operation: \<open>sqlite3.connect\<close>, or the \<open>k\<close>-th \<open>execute\<close> or
  \<open>commit\<close> inside the \<open>try\<close> block, counted from 0. \<open>now k\<close> is the \<open>k\<close>-th reading of
  \<open>datetime.now()\<close> during the call, \<open>db_now\<close> the store's \<open>CURRENT_TIMESTAMP\<close>. The three
  library functions are parameters: the path of \<open>urlparse(url)\<close> (which raises on some
  inputs), \<open>json.dumps\<close> of a form, and \<open>datetime - timedelta(days=n)\<close> (which raises
  \<open>OverflowError\<close> out of range). \<open>rollback\<close> and \<open>close\<close> are taken not to raise.
  \<open>tie_order\<close> is the store's own order among rows that an \<open>ORDER BY\<close> clause leaves
  tied: the clause of the three ranking queries names the count only, so which of two
  pages with equal counts comes first is the store's choice and not the program's. It is
  a rank of the grouping keys, the smaller rank first.
\<close>

datatype fault = NoFault | ConnectFails | StmtFails nat

record env =
  fault :: fault
  now :: "nat \<Rightarrow> pydatetime"
  db_now :: sqltime
  urlparse_path :: "pyval \<Rightarrow> exn + string"
  json_dumps :: "(string \<times> pyval) list \<Rightarrow> string"
  minus_days :: "pydatetime \<Rightarrow> int \<Rightarrow> exn + pydatetime"
  tie_order :: "sqlval \<Rightarrow> nat"

definition open_handle :: "world \<Rightarrow> world" where
  "open_handle w = w\<lparr>handles := Suc (handles w)\<rparr>"

definition close_handle :: "world \<Rightarrow> world" where
  "close_handle w = w\<lparr>handles := handles w - 1\<rparr>"

definition log_info :: "string \<Rightarrow> pyval \<Rightarrow> world \<Rightarrow> world" where
  "log_info m v w = w\<lparr>logged := logged w @ [Info m v]\<rparr>"

definition log_error :: "string \<Rightarrow> exn \<Rightarrow> world \<Rightarrow> world" where
  "log_error m x w = w\<lparr>logged := logged w @ [Error m x]\<rparr>"

section \<open>track_page_view\<close>

text \<open>\<open>INSERT INTO page_views (...) VALUES (?, ?, ?, ?, ?, ?, ?, ?, ?, ?)\<close>.\<close>

definition insert_page_view :: "sqltime \<Rightarrow> sqlval list \<Rightarrow> database \<Rightarrow> database" where
  "insert_page_view ts cs db =
     db\<lparr>page_views := page_views db @
       [\<lparr>pv_id = next_id (map pv_id (page_views db)),
         pv_session_id = text_affinity (cs ! 0),
         pv_page_url = text_affinity (cs ! 1),
         pv_page_title = text_affinity (cs ! 2),
         pv_referrer = text_affinity (cs ! 3),
         pv_user_agent = text_affinity (cs ! 4),
         pv_ip_address = text_affinity (cs ! 5),
         pv_country = text_affinity (cs ! 6),
         pv_city = text_affinity (cs ! 7),
         pv_timestamp = ts,
         pv_time_on_page = cs ! 8,
         pv_scroll_depth = cs ! 9\<rparr>]\<rparr>"

text \<open>
  \<open>INSERT INTO sessions (...) VALUES (?, ?, ?, ?, ?, ?, ?, ?, 1)
     ON CONFLICT(session_id) DO UPDATE SET last_visit = ?, total_views = total_views + 1\<close>.
  The key column is \<open>TEXT PRIMARY KEY\<close> of an ordinary rowid table, so SQLite admits NULL
  keys and a NULL key conflicts with no row.
\<close>

fun upsert :: "session \<Rightarrow> sqlval \<Rightarrow> session list \<Rightarrow> session list" where
  "upsert new lv [] = [new]"
| "upsert new lv (r # rs) =
     (if s_session_id new \<noteq> Null \<and> s_session_id r = s_session_id new
      then r\<lparr>s_last_visit := lv, s_total_views := s_total_views r + 1\<rparr> # rs
      else r # upsert new lv rs)"

definition upsert_session :: "sqlval list \<Rightarrow> database \<Rightarrow> database" where
  "upsert_session cs db =
     db\<lparr>sessions := upsert
       \<lparr>s_session_id = text_affinity (cs ! 0),
        s_user_id = text_affinity (cs ! 1),
        s_device_type = text_affinity (cs ! 2),
        s_browser = text_affinity (cs ! 3),
        s_os = text_affinity (cs ! 4),
        s_screen_resolution = text_affinity (cs ! 5),
        s_first_visit = cs ! 6,
        s_last_visit = cs ! 7,
        s_total_views = 1,
        s_duration = Null\<rparr>
       (cs ! 8) (sessions db)\<rparr>"

text \<open>The parameter tuples of the two statements, in the order of the source.\<close>

definition page_view_params :: "payload \<Rightarrow> pyval list" where
  "page_view_params data =
     [get data ''session_id'' PNone,
      get data ''page_url'' (PStr ''''),
      get data ''page_title'' (PStr ''''),
      get data ''referrer'' (PStr ''''),
      get data ''user_agent'' (PStr ''''),
      get data ''ip_address'' (PStr ''''),
      get data ''country'' (PStr ''Unknown''),
      get data ''city'' (PStr ''Unknown''),
      get data ''time_on_page'' (PInt 0),
      get data ''scroll_depth'' (PInt 0)]"

definition session_params :: "env \<Rightarrow> payload \<Rightarrow> pyval list" where
  "session_params e data =
     [get data ''session_id'' PNone,
      get data ''user_id'' (PStr ''''),
      get data ''device_type'' (PStr ''''),
      get data ''browser'' (PStr ''''),
      get data ''os'' (PStr ''''),
      get data ''screen_resolution'' (PStr ''''),
      PStr (isoformat (now e 0)),
      PStr (isoformat (now e 1)),
      PStr (isoformat (now e 2))]"

text \<open>
  The body of the \<open>try\<close> block, on the transaction's view of the store: the new store and
  the logged path when it reaches the end of \<open>commit\<close>, the exception otherwise.
\<close>

definition track_page_view_try :: "env \<Rightarrow> payload \<Rightarrow> database \<Rightarrow> exn + (database \<times> string)" where
  "track_page_view_try e data db =
     (case urlparse_path e (get data ''page_url'' (PStr '''')) of
        Inl x \<Rightarrow> Inl x
      | Inr page_path \<Rightarrow>
         (case bind_all (page_view_params data) of
            Inl x \<Rightarrow> Inl x
          | Inr cs \<Rightarrow>
             if fault e = StmtFails 0 then Inl OperationalError
             else
               (case bind_all (session_params e data) of
                  Inl x \<Rightarrow> Inl x
                | Inr ss \<Rightarrow>
                   if fault e = StmtFails 1 then Inl OperationalError
                   else if fault e = StmtFails 2 then Inl OperationalError
                   else Inr (upsert_session ss (insert_page_view (db_now e) cs db), page_path))))"

text \<open>
  The whole operation. \<open>sqlite3.connect\<close> stands before the \<open>try\<close>: when it raises, the
  exception leaves the method. Inside the \<open>try\<close>, an exception is logged and the
  transaction rolled back, so the committed store stays as it was; \<open>finally\<close> closes the
  handle.
\<close>

definition track_page_view :: "env \<Rightarrow> payload \<Rightarrow> world \<Rightarrow> (exn + unit) \<times> world" where
  "track_page_view e data w =
     (if fault e = ConnectFails then (Inl OperationalError, w)
      else
        (case track_page_view_try e data (store (open_handle w)) of
           Inr (db', page_path) \<Rightarrow>
             (Inr (), close_handle (log_info ''Page view tracked: '' (PStr page_path)
                        ((open_handle w)\<lparr>store := db'\<rparr>)))
         | Inl x \<Rightarrow>
             (Inr (), close_handle (log_error ''Error tracking page view: '' x (open_handle w)))))"

section \<open>track_conversion\<close>

text \<open>
  \<open>INSERT INTO conversions (session_id, conversion_type, conversion_value, form_data)
     VALUES (?, ?, ?, ?)\<close>; column \<open>page_url\<close> is not given and stays NULL.
\<close>

definition insert_conversion :: "sqltime \<Rightarrow> sqlval list \<Rightarrow> database \<Rightarrow> database" where
  "insert_conversion ts cs db =
     db\<lparr>conversions := conversions db @
       [\<lparr>c_id = next_id (map c_id (conversions db)),
         c_session_id = text_affinity (cs ! 0),
         c_conversion_type = text_affinity (cs ! 1),
         c_conversion_value = cs ! 2,
         c_page_url = Null,
         c_form_data = text_affinity (cs ! 3),
         c_timestamp = ts\<rparr>]\<rparr>"

text \<open>\<open>json.dumps(form_data) if form_data else None\<close>: an empty form counts as none.\<close>

definition form_param :: "env \<Rightarrow> (string \<times> pyval) list option \<Rightarrow> pyval" where
  "form_param e form_data =
     (case form_data of
        None \<Rightarrow> PNone
      | Some fd \<Rightarrow> if fd = [] then PNone else PStr (json_dumps e fd))"

definition track_conversion_try ::
  "env \<Rightarrow> pyval \<Rightarrow> pyval \<Rightarrow> pyval \<Rightarrow> (string \<times> pyval) list option \<Rightarrow> database \<Rightarrow> exn + database" where
  "track_conversion_try e session_id conversion_type conversion_value form_data db =
     (case bind_all [session_id, conversion_type, conversion_value, form_param e form_data] of
        Inl x \<Rightarrow> Inl x
      | Inr cs \<Rightarrow>
         if fault e = StmtFails 0 then Inl OperationalError
         else if fault e = StmtFails 1 then Inl OperationalError
         else Inr (insert_conversion (db_now e) cs db))"

definition track_conversion ::
  "env \<Rightarrow> pyval \<Rightarrow> pyval \<Rightarrow> pyval \<Rightarrow> (string \<times> pyval) list option \<Rightarrow> world \<Rightarrow> (exn + unit) \<times> world" where
  "track_conversion e session_id conversion_type conversion_value form_data w =
     (if fault e = ConnectFails then (Inl OperationalError, w)
      else
        (case track_conversion_try e session_id conversion_type conversion_value form_data
                (store (open_handle w)) of
           Inr db' \<Rightarrow>
             (Inr (), close_handle (log_info ''Conversion tracked: '' conversion_type
                        ((open_handle w)\<lparr>store := db'\<rparr>)))
         | Inl x \<Rightarrow>
             (Inr (), close_handle (log_error ''Error tracking conversion: '' x (open_handle w)))))"

section \<open>Queries\<close>

text \<open>\<open>WHERE DATE(timestamp) = ?\<close> on the two event tables.\<close>

definition day_views :: "string \<Rightarrow> database \<Rightarrow> page_view list" where
  "day_views d db = filter (\<lambda>r. sql_date (pv_timestamp r) = d) (page_views db)"

definition day_conversions :: "string \<Rightarrow> database \<Rightarrow> conversion list" where
  "day_conversions d db = filter (\<lambda>r. sql_date (c_timestamp r) = d) (conversions db)"

text \<open>\<open>COUNT(DISTINCT x)\<close> counts the distinct values that are not NULL.\<close>

definition count_distinct :: "sqlval list \<Rightarrow> nat" where
  "count_distinct vs = length (remdups (filter (\<lambda>v. v \<noteq> Null) vs))"

text \<open>
  \<open>GROUP BY key\<close>: one group for each value of the key (NULL is a value here), with the
  rows that have it. SQL leaves the order of the groups open; the model lists them in the
  order in which each key occurs last, and every query that groups goes on to order the
  groups (\<open>order_by_desc\<close> below).
\<close>

definition group_by :: "('r \<Rightarrow> sqlval) \<Rightarrow> 'r list \<Rightarrow> (sqlval \<times> 'r list) list" where
  "group_by key rows = map (\<lambda>k. (k, filter (\<lambda>r. key r = k) rows)) (remdups (map key rows))"

text \<open>
  \<open>ORDER BY n DESC\<close> on grouped rows: descending in the count \<open>n\<close>. Rows with equal
  counts come in the store's order \<open>tk\<close> of their keys (the ordering is made of two
  stable sorts, the second by the count); rows that \<open>tk\<close> ranks alike too keep the
  order of the grouping.
\<close>

definition order_by_desc ::
  "(sqlval \<Rightarrow> nat) \<Rightarrow> ('r \<Rightarrow> sqlval) \<Rightarrow> ('r \<Rightarrow> nat) \<Rightarrow> 'r list \<Rightarrow> 'r list" where
  "order_by_desc tk key n rs = sort_key (\<lambda>r. - int (n r)) (sort_key (\<lambda>r. tk (key r)) rs)"

text \<open>\<open>LIMIT n\<close>: a negative \<open>n\<close> is no limit.\<close>

definition sql_limit :: "int \<Rightarrow> 'a list \<Rightarrow> 'a list" where
  "sql_limit n xs = (if n < 0 then xs else take (nat n) xs)"

section \<open>get_daily_report\<close>

record top_page =
  page :: sqlval
  views :: nat

record top_referrer =
  referrer :: sqlval
  visits :: nat

record report =
  r_date :: string
  r_total_visits :: nat
  r_unique_visitors :: nat
  r_page_views :: nat
  r_top_pages :: "top_page list"
  r_referrers :: "top_referrer list"
  r_conversions :: nat

definition default_report :: "string \<Rightarrow> report" where
  "default_report d =
     \<lparr>r_date = d, r_total_visits = 0, r_unique_visitors = 0, r_page_views = 0,
      r_top_pages = [], r_referrers = [], r_conversions = 0\<rparr>"

text \<open>
  \<open>SELECT page_url, COUNT(*) as views ... GROUP BY page_url ORDER BY views DESC LIMIT 10\<close>
\<close>

definition top_pages :: "(sqlval \<Rightarrow> nat) \<Rightarrow> page_view list \<Rightarrow> top_page list" where
  "top_pages tk rows =
     sql_limit 10 (order_by_desc tk page views
       (map (\<lambda>(k, g). \<lparr>page = k, views = length g\<rparr>) (group_by pv_page_url rows)))"

text \<open>
  \<open>SELECT referrer, COUNT(*) as visits ... AND referrer != '' GROUP BY referrer
     ORDER BY visits DESC LIMIT 10\<close>; the comparison with \<open>''\<close> is not true of NULL.
\<close>

definition top_referrers :: "(sqlval \<Rightarrow> nat) \<Rightarrow> page_view list \<Rightarrow> top_referrer list" where
  "top_referrers tk rows =
     sql_limit 10 (order_by_desc tk referrer visits
       (map (\<lambda>(k, g). \<lparr>referrer = k, visits = length g\<rparr>)
         (group_by pv_referrer
           (filter (\<lambda>r. pv_referrer r \<noteq> Null \<and> pv_referrer r \<noteq> Text '''') rows))))"

text \<open>
  The five queries of the \<open>try\<close> block, each writing its result into the report before
  the next one runs. The result is the report as it stands when the block is left, and
  the exception that ended it, if any.
\<close>

definition daily_queries :: "(sqlval \<Rightarrow> nat) \<Rightarrow> fault \<Rightarrow> string \<Rightarrow> database \<Rightarrow> report \<times> exn option" where
  "daily_queries tk f d db =
     (let r0 = default_report d in
      if f = StmtFails 0 then (r0, Some OperationalError)
      else
        let r1 = r0\<lparr>r_unique_visitors := count_distinct (map pv_session_id (day_views d db)),
                    r_total_visits := length (day_views d db)\<rparr> in
        if f = StmtFails 1 then (r1, Some OperationalError)
        else
          let r2 = r1\<lparr>r_page_views := length (day_views d db)\<rparr> in
          if f = StmtFails 2 then (r2, Some OperationalError)
          else
            let r3 = r2\<lparr>r_top_pages := top_pages tk (day_views d db)\<rparr> in
            if f = StmtFails 3 then (r3, Some OperationalError)
            else
              let r4 = r3\<lparr>r_referrers := top_referrers tk (day_views d db)\<rparr> in
              if f = StmtFails 4 then (r4, Some OperationalError)
              else (r4\<lparr>r_conversions := length (day_conversions d db)\<rparr>, None))"

text \<open>\<open>if not date: date = datetime.now().strftime('%Y-%m-%d')\<close>\<close>

definition report_date :: "env \<Rightarrow> string option \<Rightarrow> string" where
  "report_date e date =
     (case date of
        None \<Rightarrow> strftime_ymd (now e 0)
      | Some s \<Rightarrow> if s = [] then strftime_ymd (now e 0) else s)"

definition get_daily_report :: "env \<Rightarrow> string option \<Rightarrow> world \<Rightarrow> (exn + report) \<times> world" where
  "get_daily_report e date w =
     (if fault e = ConnectFails then (Inl OperationalError, w)
      else
        (case daily_queries (tie_order e) (fault e) (report_date e date)
                (store (open_handle w)) of
           (r, None) \<Rightarrow> (Inr r, close_handle (open_handle w))
         | (r, Some x) \<Rightarrow>
             (Inr r, close_handle (log_error ''Error generating daily report: '' x (open_handle w)))))"

section \<open>get_popular_pages\<close>

record popular_page =
  pp_page_url :: sqlval
  pp_total_views :: nat
  pp_unique_visitors :: nat

text \<open>
  \<open>SELECT page_url, COUNT(*) as views, COUNT(DISTINCT session_id) as unique_visitors
     FROM page_views WHERE DATE(timestamp) >= ? GROUP BY page_url
     ORDER BY views DESC LIMIT ?\<close>; the dates are compared as texts.
\<close>

definition popular_query ::
  "(sqlval \<Rightarrow> nat) \<Rightarrow> string \<Rightarrow> int \<Rightarrow> database \<Rightarrow> popular_page list" where
  "popular_query tk cutoff_date limit db =
     sql_limit limit (order_by_desc tk pp_page_url pp_total_views
       (map (\<lambda>(k, g). \<lparr>pp_page_url = k, pp_total_views = length g,
                        pp_unique_visitors = count_distinct (map pv_session_id g)\<rparr>)
         (group_by pv_page_url
           (filter (\<lambda>r. cutoff_date \<le> sql_date (pv_timestamp r)) (page_views db)))))"

definition get_popular_pages_try :: "env \<Rightarrow> int \<Rightarrow> int \<Rightarrow> database \<Rightarrow> exn + popular_page list" where
  "get_popular_pages_try e days limit db =
     (case minus_days e (now e 0) days of
        Inl x \<Rightarrow> Inl x
      | Inr t \<Rightarrow>
         (case bind_all [PStr (strftime_ymd t), PInt limit] of
            Inl x \<Rightarrow> Inl x
          | Inr cs \<Rightarrow>
             if fault e = StmtFails 0 then Inl OperationalError
             else Inr (popular_query (tie_order e) (strftime_ymd t) limit db)))"

definition get_popular_pages :: "env \<Rightarrow> int \<Rightarrow> int \<Rightarrow> world \<Rightarrow> (exn + popular_page list) \<times> world" where
  "get_popular_pages e days limit w =
     (if fault e = ConnectFails then (Inl OperationalError, w)
      else
        (case get_popular_pages_try e days limit (store (open_handle w)) of
           Inr pages \<Rightarrow> (Inr pages, close_handle (open_handle w))
         | Inl x \<Rightarrow>
             (Inr [], close_handle (log_error ''Error getting popular pages: '' x (open_handle w)))))"

section \<open>export_data\<close>

record export_payload =
  export_date :: string
  summary :: report
  popular_pages :: "popular_page list"

text \<open>
  The exported text. \<open>json.dumps(data, indent=2)\<close> and \<open>str(data)\<close> are renderings of the
  library and stay two constructors around the data; the CSV text is built by the method
  itself and is modelled character by character.
\<close>

datatype export_text = JsonDumps export_payload | CsvText string | StrOf export_payload

definition lower_char :: "char \<Rightarrow> char" where
  "lower_char c =
     (if CHR ''A'' \<le> c \<and> c \<le> CHR ''Z'' then char_of (of_char c + (32 :: nat)) else c)"

definition lower :: "string \<Rightarrow> string" where
  "lower s = map lower_char s"

text \<open>An f-string field: \<open>None\<close> is written \<open>None\<close>.\<close>

definition fstr :: "sqlval \<Rightarrow> string" where
  "fstr v = (case v of Null \<Rightarrow> ''None'' | Integer i \<Rightarrow> str_int i | Text s \<Rightarrow> s)"

text \<open>\<open>'\n'.join(csv_lines)\<close>\<close>

fun join_lines :: "string list \<Rightarrow> string" where
  "join_lines [] = []"
| "join_lines [l] = l"
| "join_lines (l # m # ls) = l @ CHR 0x0A # join_lines (m # ls)"

definition csv_lines :: "export_payload \<Rightarrow> string list" where
  "csv_lines data =
     [''Metric,Value'',
      ''Export Date,'' @ export_date data,
      ''Total Visits,'' @ str_nat (r_total_visits (summary data)),
      ''Unique Visitors,'' @ str_nat (r_unique_visitors (summary data)),
      ''Page Views,'' @ str_nat (r_page_views (summary data)),
      ''Conversions,'' @ str_nat (r_conversions (summary data)),
      '''',
      ''Popular Pages,Views,Unique Visitors''] @
     map (\<lambda>p. fstr (pp_page_url p) @ '','' @ str_nat (pp_total_views p) @ '','' @
               str_nat (pp_unique_visitors p))
       (popular_pages data)"

definition render :: "string \<Rightarrow> export_payload \<Rightarrow> export_text" where
  "render format data =
     (if lower format = ''json'' then JsonDumps data
      else if lower format = ''csv'' then CsvText (join_lines (csv_lines data))
      else StrOf data)"

text \<open>
  The method opens a handle of its own and has no \<open>close\<close> for it; the two reports it
  calls open and close theirs. \<open>e\<close> is the environment of the method itself, \<open>er\<close> and
  \<open>ep\<close> those of the two calls.
\<close>

definition export_data :: "env \<Rightarrow> env \<Rightarrow> env \<Rightarrow> string \<Rightarrow> world \<Rightarrow> (exn + export_text) \<times> world" where
  "export_data e er ep format w =
     (if fault e = ConnectFails then (Inl OperationalError, w)
      else
        (case get_daily_report er None (open_handle w) of
           (Inl x, w1) \<Rightarrow> (Inl x, w1)
         | (Inr s, w1) \<Rightarrow>
            (case get_popular_pages ep 30 20 w1 of
               (Inl x, w2) \<Rightarrow> (Inl x, w2)
             | (Inr ps, w2) \<Rightarrow>
                (Inr (render format
                   \<lparr>export_date = isoformat (now e 0), summary = s, popular_pages = ps\<rparr>), w2))))"

section \<open>Reading the tabular export back\<close>

text \<open>
  The reader's side of the round trip, which the tracker itself does not contain: the
  export is split at the line feeds, the row of \<open>Total Visits\<close> is the first line that
  starts with that metric name and a comma, and its value is the rest of the line read as
  an unsigned decimal number.
\<close>

definition digit_of :: "char \<Rightarrow> nat option" where
  "digit_of c =
     map_of [(CHR ''0'', 0), (CHR ''1'', 1), (CHR ''2'', 2), (CHR ''3'', 3), (CHR ''4'', 4),
             (CHR ''5'', 5), (CHR ''6'', 6), (CHR ''7'', 7), (CHR ''8'', 8), (CHR ''9'', 9)] c"

fun parse_digits :: "nat \<Rightarrow> string \<Rightarrow> nat option" where
  "parse_digits acc [] = Some acc"
| "parse_digits acc (c # cs) =
     (case digit_of c of None \<Rightarrow> None | Some d \<Rightarrow> parse_digits (10 * acc + d) cs)"

definition parse_nat :: "string \<Rightarrow> nat option" where
  "parse_nat s = (if s = [] then None else parse_digits 0 s)"

fun split_on :: "char \<Rightarrow> string \<Rightarrow> string list" where
  "split_on c [] = [[]]"
| "split_on c (x # xs) =
     (if x = c then [] # split_on c xs
      else (case split_on c xs of [] \<Rightarrow> [[x]] | l # ls \<Rightarrow> (x # l) # ls))"

definition parse_total_visits :: "string \<Rightarrow> nat option" where
  "parse_total_visits csv =
     (case find (\<lambda>l. take 13 l = ''Total Visits,'') (split_on (CHR 0x0A) csv) of
        None \<Rightarrow> None
      | Some l \<Rightarrow> parse_nat (drop 13 l))"

section \<open>Concrete inputs\<close>

text \<open>A clock, an environment without faults, and small stores, for the examples below.\<close>

definition t_jan5 :: sqltime where
  "t_jan5 = \<lparr>t_year = 2024, t_month = 1, t_day = 5, t_hour = 10, t_minute = 0, t_second = 0\<rparr>"

definition t_jan6 :: sqltime where
  "t_jan6 = \<lparr>t_year = 2024, t_month = 1, t_day = 6, t_hour = 0, t_minute = 0, t_second = 0\<rparr>"

definition clock0 :: "nat \<Rightarrow> pydatetime" where
  "clock0 k = \<lparr>dt_year = 2024, dt_month = 1, dt_day = 5, dt_hour = 12, dt_minute = 0,
               dt_second = 0, dt_microsecond = 100 + k\<rparr>"

definition env0 :: env where
  "env0 = \<lparr>fault = NoFault, now = clock0, db_now = t_jan5,
           urlparse_path = (\<lambda>v. case v of PStr s \<Rightarrow> Inr s | _ \<Rightarrow> Inl ValueError),
           json_dumps = (\<lambda>fd. ''{}''),
           minus_days = (\<lambda>t n. Inr t),
           tie_order = (\<lambda>v. if v = Text ''/b'' then 0 else 1)\<rparr>"

definition empty_db :: database where
  "empty_db = \<lparr>page_views = [], sessions = [], conversions = []\<rparr>"

definition w0 :: world where
  "w0 = \<lparr>store = empty_db, handles = 0, logged = []\<rparr>"

definition view_row :: "nat \<Rightarrow> string \<Rightarrow> string \<Rightarrow> sqltime \<Rightarrow> page_view" where
  "view_row i sid url ts =
     \<lparr>pv_id = i, pv_session_id = Text sid, pv_page_url = Text url, pv_page_title = Text '''',
      pv_referrer = Text '''', pv_user_agent = Text '''', pv_ip_address = Text '''',
      pv_country = Text ''Unknown'', pv_city = Text ''Unknown'', pv_timestamp = ts,
      pv_time_on_page = Integer 0, pv_scroll_depth = Integer 0\<rparr>"

definition conversion_row :: "nat \<Rightarrow> string \<Rightarrow> string \<Rightarrow> sqltime \<Rightarrow> conversion" where
  "conversion_row i sid ty ts =
     \<lparr>c_id = i, c_session_id = Text sid, c_conversion_type = Text ty,
      c_conversion_value = Integer 0, c_page_url = Null, c_form_data = Null,
      c_timestamp = ts\<rparr>"

definition db1 :: database where
  "db1 = \<lparr>page_views = [view_row 1 ''s1'' ''/a'' t_jan5, view_row 2 ''s1'' ''/b'' t_jan5,
                         view_row 3 ''s2'' ''/a'' t_jan6],
          sessions = [],
          conversions = [conversion_row 1 ''s1'' ''form'' t_jan5,
                         conversion_row 2 ''s2'' ''quote'' t_jan6]\<rparr>"

definition w1 :: world where
  "w1 = \<lparr>store = db1, handles = 0, logged = []\<rparr>"

text \<open>
  The grouping step and the ordering step of the top-pages query on their own, and the
  number of rows of a page.
\<close>

definition url_count :: "page_view list \<Rightarrow> sqlval \<Rightarrow> nat" where
  "url_count rows u = length (filter (\<lambda>r. pv_page_url r = u) rows)"

definition page_groups :: "page_view list \<Rightarrow> top_page list" where
  "page_groups rows = map (\<lambda>(k, g). \<lparr>page = k, views = length g\<rparr>) (group_by pv_page_url rows)"

definition ordered_pages :: "(sqlval \<Rightarrow> nat) \<Rightarrow> page_view list \<Rightarrow> top_page list" where
  "ordered_pages tk rows = order_by_desc tk page views (page_groups rows)"

text \<open>
  Thirteen page views of one day, on three pages with 5, 5 and 3 views, the page with 3
  views recorded first.
\<close>

definition urls553 :: "string list" where
  "urls553 = [''/c'', ''/a'', ''/b'', ''/a'', ''/c'', ''/b'', ''/a'', ''/b'', ''/a'', ''/c'',
              ''/b'', ''/a'', ''/b'']"

definition db553 :: database where
  "db553 = \<lparr>page_views = map (\<lambda>(i, u). view_row (Suc i) ''s1'' u t_jan5) (enumerate 0 urls553),
            sessions = [], conversions = []\<rparr>"

definition w553 :: world where
  "w553 = \<lparr>store = db553, handles = 0, logged = []\<rparr>"

text \<open>The environment \<open>env0\<close> with a fault, and a payload of session \<open>s1\<close>.\<close>

definition env_fault :: "fault \<Rightarrow> env" where
  "env_fault f = env0\<lparr>fault := f\<rparr>"

definition view_s1 :: payload where
  "view_s1 = [''session_id'' \<mapsto> PStr ''s1'', ''page_url'' \<mapsto> PStr ''/a'']"

text \<open>
  Recording a sequence of page views, one call after the other, each with its own
  environment; the key under which a payload's session is stored; the condition under
  which a call reaches the end of its \<open>try\<close> block; and the session rows of a key.
\<close>

fun track_all :: "(env \<times> payload) list \<Rightarrow> world \<Rightarrow> world" where
  "track_all [] w = w"
| "track_all (ev # evs) w = track_all evs (snd (track_page_view (fst ev) (snd ev) w))"

definition session_key :: "payload \<Rightarrow> exn + sqlval" where
  "session_key data = map_sum id text_affinity (bind (get data ''session_id'' PNone))"

definition recorded :: "env \<Rightarrow> payload \<Rightarrow> bool" where
  "recorded e data \<longleftrightarrow>
     fault e = NoFault \<and>
     \<not> isl (urlparse_path e (get data ''page_url'' (PStr ''''))) \<and>
     \<not> isl (bind_all (page_view_params data)) \<and>
     \<not> isl (bind_all (session_params e data))"

definition session_rows :: "sqlval \<Rightarrow> world \<Rightarrow> session list" where
  "session_rows k w = filter (\<lambda>s. s_session_id s = k) (sessions (store w))"

text \<open>The environment \<open>env0\<close> with its clock moved on by \<open>n\<close> microseconds.\<close>

definition env_at :: "nat \<Rightarrow> env" where
  "env_at n = env0\<lparr>now := (\<lambda>k. clock0 (n + k))\<rparr>"







section \<open>Counting\<close>

lemma count_distinct_le: "count_distinct vs \<le> length vs"
  unfolding count_distinct_def
  by (rule order_trans [OF length_remdups_leq]) simp

lemma set_sql_limit: "set (sql_limit n xs) \<subseteq> set xs"
  by (auto simp: sql_limit_def dest: in_set_takeD)

lemma set_order_by_desc [simp]: "set (order_by_desc tk key n rs) = set rs"
  by (simp add: order_by_desc_def)

lemma length_order_by_desc [simp]: "length (order_by_desc tk key n rs) = length rs"
  by (simp add: order_by_desc_def)

lemma distinct_order_by_desc [simp]: "distinct (order_by_desc tk key n rs) = distinct rs"
  by (simp add: order_by_desc_def)

lemma order_by_desc_Nil [simp]: "order_by_desc tk key n [] = []"
  by (simp add: order_by_desc_def)

lemma sorted_order_by_desc: "sorted (map (\<lambda>r. - int (n r)) (order_by_desc tk key n rs))"
  unfolding order_by_desc_def by (rule sorted_sort_key)

section \<open>The daily report without a fault\<close>

lemma daily_queries_NoFault:
  "daily_queries tk NoFault d db =
     (\<lparr>r_date = d, r_total_visits = length (day_views d db),
       r_unique_visitors = count_distinct (map pv_session_id (day_views d db)),
       r_page_views = length (day_views d db),
       r_top_pages = top_pages tk (day_views d db),
       r_referrers = top_referrers tk (day_views d db),
       r_conversions = length (day_conversions d db)\<rparr>, None)"
  by (simp add: daily_queries_def default_report_def Let_def)

lemma get_daily_report_NoFault:
  "fault e = NoFault \<Longrightarrow>
   fst (get_daily_report e date w) =
     Inr (fst (daily_queries (tie_order e) NoFault (report_date e date) (store w)))"
  by (simp add: get_daily_report_def daily_queries_NoFault open_handle_def)

section \<open>Popular pages\<close>

lemma popular_query_le:
  assumes "p \<in> set (popular_query tk c n db)"
  shows "pp_unique_visitors p \<le> pp_total_views p"
proof -
  let ?f = "\<lambda>(k, g). \<lparr>pp_page_url = k, pp_total_views = length g,
                        pp_unique_visitors = count_distinct (map pv_session_id g)\<rparr>"
  have all: "\<forall>q \<in> set (map ?f gs). pp_unique_visitors q \<le> pp_total_views q" for gs
    using count_distinct_le [of "map pv_session_id g" for g] by auto
  from assms set_sql_limit [of n] have "p \<in> set (map ?f (group_by pv_page_url
           (filter (\<lambda>r. c \<le> sql_date (pv_timestamp r)) (page_views db))))"
    unfolding popular_query_def by fastforce
  with all show ?thesis by blast
qed

lemma get_popular_pages_cases:
  "fault e \<noteq> ConnectFails \<Longrightarrow>
   fst (get_popular_pages e days limit w) = Inr [] \<or>
   (\<exists>c. fst (get_popular_pages e days limit w) =
        Inr (popular_query (tie_order e) c limit (store w)))"
  by (auto simp: get_popular_pages_def get_popular_pages_try_def open_handle_def
           split: sum.splits)

text \<open>
  Claim C10. A daily report built without a fault has \<open>page_views\<close> equal to
  \<open>total_visits\<close> and \<open>unique_visitors\<close> at most \<open>total_visits\<close>; every entry that
  \<open>get_popular_pages\<close> returns has \<open>unique_visitors\<close> at most \<open>total_views\<close>. Both
  operations do return a value here.
\<close>

theorem report_fields_consistent:
  "(fault e = NoFault \<longrightarrow>
      (\<exists>r. fst (get_daily_report e date w) = Inr r \<and>
           r_page_views r = r_total_visits r \<and> r_unique_visitors r \<le> r_total_visits r)) \<and>
   (fault e' \<noteq> ConnectFails \<longrightarrow>
      (\<exists>ps. fst (get_popular_pages e' days limit w) = Inr ps \<and>
            (\<forall>p \<in> set ps. pp_unique_visitors p \<le> pp_total_views p)))"
proof (intro conjI impI)
  assume "fault e = NoFault"
  then show "\<exists>r. fst (get_daily_report e date w) = Inr r \<and>
           r_page_views r = r_total_visits r \<and> r_unique_visitors r \<le> r_total_visits r"
    using count_distinct_le [of "map pv_session_id (day_views (report_date e date) (store w))"]
    by (simp add: get_daily_report_NoFault daily_queries_NoFault)
next
  assume "fault e' \<noteq> ConnectFails"
  from get_popular_pages_cases [OF this, of days limit w]
  show "\<exists>ps. fst (get_popular_pages e' days limit w) = Inr ps \<and>
            (\<forall>p \<in> set ps. pp_unique_visitors p \<le> pp_total_views p)"
    by (auto dest: popular_query_le)
qed

theorem report_fields_consistent_witness:
  "fault env0 = NoFault \<and> fault env0 \<noteq> ConnectFails \<and>
   (\<exists>r. fst (get_daily_report env0 (Some ''2024-01-05'') w1) = Inr r \<and>
        r_page_views r = r_total_visits r \<and> r_unique_visitors r \<le> r_total_visits r) \<and>
   (\<exists>ps. fst (get_popular_pages env0 7 10 w1) = Inr ps \<and>
         (\<forall>p \<in> set ps. pp_unique_visitors p \<le> pp_total_views p))"
  using report_fields_consistent [of env0 "Some ''2024-01-05''" w1 env0 7 10]
  by (simp add: env0_def)

section \<open>Evaluating the concrete stores\<close>

lemma sql_date_t_jan5: "sql_date t_jan5 = ''2024-01-05''"
  by code_simp

lemma sql_date_t_jan6: "sql_date t_jan6 = ''2024-01-06''"
  by code_simp

lemma day_views_db1:
  "day_views ''2024-01-05'' db1 =
     [view_row 1 ''s1'' ''/a'' t_jan5, view_row 2 ''s1'' ''/b'' t_jan5]"
  by (simp add: day_views_def db1_def view_row_def sql_date_t_jan5 sql_date_t_jan6)


section \<open>The date filter of the daily report\<close>


section \<open>Conversions in the daily report\<close>






section \<open>The top pages of a day\<close>

lemma page_groups_eq:
  "page_groups rows =
     map (\<lambda>k. \<lparr>page = k, views = url_count rows k\<rparr>) (remdups (map pv_page_url rows))"
  by (simp add: page_groups_def group_by_def url_count_def comp_def)

lemma map_page_groups: "map page (page_groups rows) = remdups (map pv_page_url rows)"
  by (simp add: page_groups_eq comp_def)

lemma page_groups_views: "t \<in> set (page_groups rows) \<Longrightarrow> views t = url_count rows (page t)"
  by (auto simp: page_groups_eq)

lemma url_count_pos: "0 < url_count rows u \<longleftrightarrow> u \<in> set (map pv_page_url rows)"
  by (auto simp: url_count_def filter_empty_conv)

lemma page_groups_complete:
  "0 < url_count rows u \<Longrightarrow> \<lparr>page = u, views = url_count rows u\<rparr> \<in> set (page_groups rows)"
  by (auto simp: page_groups_eq url_count_pos)

lemma top_pages_take: "top_pages tk rows = take 10 (ordered_pages tk rows)"
  by (simp add: top_pages_def sql_limit_def ordered_pages_def page_groups_def)

lemma set_ordered_pages: "set (ordered_pages tk rows) = set (page_groups rows)"
  by (simp add: ordered_pages_def)

lemma sorted_ordered_pages:
  "sorted_wrt (\<lambda>a b. views b \<le> views a) (ordered_pages tk rows)"
proof -
  have "sorted (map (\<lambda>t. - int (views t)) (ordered_pages tk rows))"
    unfolding ordered_pages_def by (rule sorted_order_by_desc)
  then show ?thesis by (simp add: sorted_map)
qed

lemma distinct_ordered_pages: "distinct (map page (ordered_pages tk rows))"
proof -
  have "distinct (map page (page_groups rows))" by (simp add: map_page_groups)
  then have "distinct (page_groups rows)" "inj_on page (set (page_groups rows))"
    by (simp_all add: distinct_map)
  then show ?thesis
    by (simp add: distinct_map ordered_pages_def)
qed

lemma top_pages_length: "length (top_pages tk rows) \<le> 10"
  by (simp add: top_pages_take)

lemma top_pages_sorted: "sorted_wrt (\<lambda>a b. views b \<le> views a) (top_pages tk rows)"
  unfolding top_pages_take by (rule sorted_wrt_take [OF sorted_ordered_pages])

lemma top_pages_distinct: "distinct (map page (top_pages tk rows))"
  unfolding top_pages_take take_map [symmetric] by (rule distinct_take [OF distinct_ordered_pages])

lemma top_pages_views:
  "t \<in> set (top_pages tk rows) \<Longrightarrow> views t = url_count rows (page t) \<and> 0 < views t"
proof -
  assume "t \<in> set (top_pages tk rows)"
  then have t: "t \<in> set (page_groups rows)"
    unfolding top_pages_take using set_ordered_pages by (auto dest: in_set_takeD)
  then have "page t \<in> set (map page (page_groups rows))" by simp
  then have "page t \<in> set (map pv_page_url rows)" by (simp add: map_page_groups)
  with page_groups_views [OF t] show ?thesis by (simp add: url_count_pos)
qed

lemma top_pages_before:
  assumes i: "i < length (top_pages tk rows)"
    and more: "views (top_pages tk rows ! i) < url_count rows u"
  shows "\<exists>j<i. page (top_pages tk rows ! j) = u"
proof -
  let ?S = "ordered_pages tk rows"
  let ?T = "top_pages tk rows"
  have iS: "i < length ?S" and i10: "i < 10" using i by (simp_all add: top_pages_take)
  have Ti: "?T ! i = ?S ! i" using i by (simp add: top_pages_take)
  have "0 < url_count rows u" using more by simp
  then have "\<lparr>page = u, views = url_count rows u\<rparr> \<in> set ?S"
    by (simp add: set_ordered_pages page_groups_complete)
  then obtain j where j: "j < length ?S" and Sj: "?S ! j = \<lparr>page = u, views = url_count rows u\<rparr>"
    by (auto simp: in_set_conv_nth)
  have "j < i"
  proof (rule ccontr)
    assume "\<not> j < i"
    then have "i = j \<or> i < j" by auto
    then show False
    proof
      assume "i = j"
      with Sj Ti more show False by simp
    next
      assume "i < j"
      with sorted_ordered_pages [of tk rows] j have "views (?S ! j) \<le> views (?S ! i)"
        by (simp add: sorted_wrt_iff_nth_less)
      with Sj Ti more show False by simp
    qed
  qed
  moreover from this i10 j have "?T ! j = ?S ! j" by (simp add: top_pages_take)
  ultimately show ?thesis using Sj by auto
qed

lemma top_pages_all:
  assumes "length (remdups (map pv_page_url rows)) \<le> 10"
  shows "set (map page (top_pages tk rows)) = set (map pv_page_url rows)"
proof -
  have "length (ordered_pages tk rows) \<le> 10"
    using assms by (simp add: ordered_pages_def page_groups_eq)
  then have "top_pages tk rows = ordered_pages tk rows" by (simp add: top_pages_take)
  then have "set (map page (top_pages tk rows)) = set (map page (page_groups rows))"
    by (simp add: set_ordered_pages)
  then show ?thesis by (simp add: map_page_groups)
qed

lemma view_row_sel [simp]:
  "pv_page_url (view_row i s u t) = Text u"
  "pv_session_id (view_row i s u t) = Text s"
  "pv_timestamp (view_row i s u t) = t"
  by (simp_all add: view_row_def)

lemma page_views_db553:
  "page_views db553 = map (\<lambda>(i, u). view_row (Suc i) ''s1'' u t_jan5) (enumerate 0 urls553)"
  by (simp add: db553_def)

lemma day_views_db553: "day_views ''2024-01-05'' db553 = page_views db553"
  by (simp add: day_views_def page_views_db553 sql_date_t_jan5 split_beta)

lemma urls_db553: "map pv_page_url (page_views db553) = map Text urls553"
proof -
  have "map pv_page_url (map (\<lambda>(i, u). view_row (Suc i) ''s1'' u t_jan5) ys) =
        map Text (map snd ys)" for ys :: "(nat \<times> string) list"
    by (induct ys) auto
  then show ?thesis by (simp only: page_views_db553 map_snd_enumerate)
qed

lemma url_count_db553:
  "url_count (page_views db553) u = length (filter (\<lambda>v. v = u) (map Text urls553))"
  unfolding url_count_def urls_db553 [symmetric] by (simp add: filter_map comp_def)

lemma page_groups_db553:
  "page_groups (page_views db553) =
     [\<lparr>page = Text ''/c'', views = 3\<rparr>, \<lparr>page = Text ''/a'', views = 5\<rparr>,
      \<lparr>page = Text ''/b'', views = 5\<rparr>]"
  unfolding page_groups_eq urls_db553 url_count_db553
  by (simp add: urls553_def)

lemma sort_rank3:
  "sort_key (\<lambda>t. tk (page t))
     [\<lparr>page = Text ''/c'', views = 3\<rparr>, \<lparr>page = Text ''/a'', views = 5\<rparr>,
      \<lparr>page = Text ''/b'', views = 5\<rparr>] = xs \<Longrightarrow>
   sort_key (\<lambda>t. - int (views t)) xs =
     [\<lparr>page = Text ''/a'', views = 5\<rparr>, \<lparr>page = Text ''/b'', views = 5\<rparr>,
      \<lparr>page = Text ''/c'', views = 3\<rparr>] \<or>
   sort_key (\<lambda>t. - int (views t)) xs =
     [\<lparr>page = Text ''/b'', views = 5\<rparr>, \<lparr>page = Text ''/a'', views = 5\<rparr>,
      \<lparr>page = Text ''/c'', views = 3\<rparr>]"
  by (auto split: if_splits)

lemma top_pages_db553:
  "top_pages tk (page_views db553) =
     [\<lparr>page = Text ''/a'', views = 5\<rparr>, \<lparr>page = Text ''/b'', views = 5\<rparr>,
      \<lparr>page = Text ''/c'', views = 3\<rparr>] \<or>
   top_pages tk (page_views db553) =
     [\<lparr>page = Text ''/b'', views = 5\<rparr>, \<lparr>page = Text ''/a'', views = 5\<rparr>,
      \<lparr>page = Text ''/c'', views = 3\<rparr>]"
proof -
  have o: "ordered_pages tk (page_views db553) =
      sort_key (\<lambda>t. - int (views t)) (sort_key (\<lambda>t. tk (page t))
        [\<lparr>page = Text ''/c'', views = 3\<rparr>, \<lparr>page = Text ''/a'', views = 5\<rparr>,
         \<lparr>page = Text ''/b'', views = 5\<rparr>])"
    by (simp only: ordered_pages_def page_groups_db553 order_by_desc_def)
  from sort_rank3 [OF refl, of tk] show ?thesis
    unfolding top_pages_take o by (elim disjE) simp_all
qed


text \<open>
  Claim C3. In a daily report built without a fault, \<open>top_pages\<close> has at most 10
  entries, one for each page among the day's page views with the number of the day's
  views of that page, in descending order of that number; a page with more views of the
  day than a listed one is listed before it. With at most 10 pages every page is listed,
  so that for views 5, 5 and 3 both pages with 5 views precede the page with 3 views, in
  whatever order the events were inserted. Which of two pages with equal views comes
  first is the store's choice (\<open>tie_order\<close>); the statement holds for every such choice.
\<close>

theorem top_pages_ranked:
  assumes "fault e = NoFault"
  shows "\<exists>r. fst (get_daily_report e date w) = Inr r \<and>
     (let rows = day_views (report_date e date) (store w); T = r_top_pages r in
        length T \<le> 10 \<and>
        sorted_wrt (\<lambda>a b. views b \<le> views a) T \<and>
        distinct (map page T) \<and>
        (\<forall>t \<in> set T. views t = url_count rows (page t) \<and> 0 < views t) \<and>
        (\<forall>i < length T. \<forall>u. views (T ! i) < url_count rows u \<longrightarrow>
            (\<exists>j < i. page (T ! j) = u)) \<and>
        (length (remdups (map pv_page_url rows)) \<le> 10 \<longrightarrow>
            set (map page T) = set (map pv_page_url rows)))"
proof -
  let ?rows = "day_views (report_date e date) (store w)"
  have v: "\<forall>t \<in> set (top_pages (tie_order e) ?rows). views t = url_count ?rows (page t) \<and> 0 < views t"
    using top_pages_views by blast
  have b: "\<forall>i < length (top_pages (tie_order e) ?rows). \<forall>u. views (top_pages (tie_order e) ?rows ! i) < url_count ?rows u \<longrightarrow>
            (\<exists>j < i. page (top_pages (tie_order e) ?rows ! j) = u)"
    using top_pages_before by blast
  have a: "length (remdups (map pv_page_url ?rows)) \<le> 10 \<longrightarrow>
            set (map page (top_pages (tie_order e) ?rows)) = set (map pv_page_url ?rows)"
    using top_pages_all by blast
  let ?r = "fst (daily_queries (tie_order e) NoFault (report_date e date) (store w))"
  have R: "fst (get_daily_report e date w) = Inr ?r"
    by (rule get_daily_report_NoFault [OF assms])
  have T: "r_top_pages ?r = top_pages (tie_order e) ?rows"
    by (simp add: daily_queries_NoFault)
  have l: "length (top_pages (tie_order e) ?rows) \<le> 10" by (rule top_pages_length)
  have s: "sorted_wrt (\<lambda>a b. views b \<le> views a) (top_pages (tie_order e) ?rows)" by (rule top_pages_sorted)
  have d: "distinct (map page (top_pages (tie_order e) ?rows))" by (rule top_pages_distinct)
  show ?thesis
    apply (rule exI [of _ ?r])
    unfolding Let_def T
    using R l s d v b a by (intro conjI)
qed

theorem top_pages_ranked_witness:
  "fault env0 = NoFault \<and>
   map (url_count (day_views ''2024-01-05'' (store w553)))
     [Text ''/a'', Text ''/b'', Text ''/c''] = [5, 5, 3] \<and>
   (\<exists>r. fst (get_daily_report env0 (Some ''2024-01-05'') w553) = Inr r \<and>
        map views (r_top_pages r) = [5, 5, 3] \<and>
        set (map page (take 2 (r_top_pages r))) = {Text ''/a'', Text ''/b''} \<and>
        page (r_top_pages r ! 2) = Text ''/c'' \<and>
        length (r_top_pages r) \<le> 10 \<and>
        sorted_wrt (\<lambda>a b. views b \<le> views a) (r_top_pages r))"
proof -
  have f: "fault env0 = NoFault" by (simp add: env0_def)
  have d: "report_date env0 (Some ''2024-01-05'') = ''2024-01-05''"
    by (simp add: report_date_def)
  have s: "store w553 = db553" by (simp add: w553_def)
  have c: "map (url_count (day_views ''2024-01-05'' (store w553)))
     [Text ''/a'', Text ''/b'', Text ''/c''] = [5, 5, 3]"
    by (simp add: s day_views_db553 url_count_db553 urls553_def)
  from top_pages_ranked [OF f, of "Some ''2024-01-05''" w553]
  obtain r where r: "fst (get_daily_report env0 (Some ''2024-01-05'') w553) = Inr r"
    and l: "length (r_top_pages r) \<le> 10"
    and o: "sorted_wrt (\<lambda>a b. views b \<le> views a) (r_top_pages r)"
    by (auto simp: Let_def)
  from r have "r = fst (daily_queries (tie_order env0) NoFault ''2024-01-05'' db553)"
    by (simp add: get_daily_report_NoFault [OF f] d s)
  then have t: "r_top_pages r = top_pages (tie_order env0) (page_views db553)"
    by (simp add: daily_queries_NoFault day_views_db553)
  from top_pages_db553 [of "tie_order env0"]
  consider (ab) "r_top_pages r =
      [\<lparr>page = Text ''/a'', views = 5\<rparr>, \<lparr>page = Text ''/b'', views = 5\<rparr>,
       \<lparr>page = Text ''/c'', views = 3\<rparr>]"
    | (ba) "r_top_pages r =
      [\<lparr>page = Text ''/b'', views = 5\<rparr>, \<lparr>page = Text ''/a'', views = 5\<rparr>,
       \<lparr>page = Text ''/c'', views = 3\<rparr>]"
    unfolding t by blast
  then have v: "map views (r_top_pages r) = [5, 5, 3]"
    and p: "set (map page (take 2 (r_top_pages r))) = {Text ''/a'', Text ''/b''}"
    and q: "page (r_top_pages r ! 2) = Text ''/c''"
    by (cases; simp add: insert_commute)+
  show ?thesis
    apply (intro conjI)
      apply (rule f)
     apply (rule c)
    apply (rule exI [of _ r])
    using r v p q l o by (intro conjI)
qed

section \<open>Store handles\<close>

lemma track_page_view_handles: "handles (snd (track_page_view e data w)) = handles w"
  by (simp add: track_page_view_def open_handle_def close_handle_def log_info_def log_error_def
           split: sum.splits prod.splits)

lemma track_conversion_handles:
  "handles (snd (track_conversion e sid ty v fd w)) = handles w"
  by (simp add: track_conversion_def open_handle_def close_handle_def log_info_def log_error_def
           split: sum.splits)

lemma get_daily_report_handles: "handles (snd (get_daily_report e date w)) = handles w"
  by (simp add: get_daily_report_def open_handle_def close_handle_def log_error_def
           split: prod.splits option.splits)

lemma get_popular_pages_handles: "handles (snd (get_popular_pages e days limit w)) = handles w"
  by (simp add: get_popular_pages_def open_handle_def close_handle_def log_error_def
           split: sum.splits)

text \<open>
  Claim C7. The four operations with a \<open>finally: conn.close()\<close> leave as many handles
  open as they found, on every path. \<open>export_data\<close> does not: whenever its own
  \<open>connect\<close> succeeds, it returns (or raises) with one more handle open than before,
  in every format and whatever its two inner calls do.
\<close>

theorem export_data_handle_leak:
  assumes "fault e \<noteq> ConnectFails"
  shows "handles (snd (export_data e er ep format w)) = Suc (handles w) \<and>
         handles (snd (track_page_view e1 data w)) = handles w \<and>
         handles (snd (track_conversion e2 sid ty v fd w)) = handles w \<and>
         handles (snd (get_daily_report e3 date w)) = handles w \<and>
         handles (snd (get_popular_pages e4 days limit w)) = handles w"
proof -
  have "handles (snd (export_data e er ep format w)) = handles (open_handle w)"
    using assms get_daily_report_handles [of er None "open_handle w"]
      get_popular_pages_handles [of ep 30 20 "snd (get_daily_report er None (open_handle w))"]
    by (auto simp: export_data_def split: prod.splits sum.splits)
  then show ?thesis
    by (simp add: open_handle_def track_page_view_handles track_conversion_handles
          get_daily_report_handles get_popular_pages_handles)
qed

theorem export_data_handle_leak_witness:
  "fault env0 \<noteq> ConnectFails \<and> handles w0 = 0 \<and>
   handles (snd (export_data env0 env0 env0 ''json'' w0)) = 1 \<and>
   handles (snd (get_daily_report env0 None w0)) = 0"
  using export_data_handle_leak [of env0 env0 env0 "''json''" w0 env0 Map.empty env0 PNone PNone
      PNone None env0 None env0 0 0]
  by (simp add: env0_def w0_def)

section \<open>Failures while persisting an event\<close>

lemma store_open_handle: "store (open_handle w) = store w"
  by (simp add: open_handle_def)

lemma close_open_handle: "close_handle (log_error m x (open_handle w)) = log_error m x w"
  by (simp add: close_handle_def open_handle_def log_error_def)

lemma track_page_view_failed:
  "fault e \<noteq> ConnectFails \<Longrightarrow> track_page_view_try e data (store w) = Inl x \<Longrightarrow>
   track_page_view e data w = (Inr (), log_error ''Error tracking page view: '' x w)"
  by (simp add: track_page_view_def close_open_handle store_open_handle)

lemma track_conversion_failed:
  "fault e \<noteq> ConnectFails \<Longrightarrow> track_conversion_try e sid ty v fd (store w) = Inl x \<Longrightarrow>
   track_conversion e sid ty v fd w = (Inr (), log_error ''Error tracking conversion: '' x w)"
  by (simp add: track_conversion_def close_open_handle store_open_handle)

lemma track_page_view_try_fails:
  assumes "isl (urlparse_path e (get data ''page_url'' (PStr ''''))) \<or>
           isl (bind_all (page_view_params data)) \<or>
           isl (bind_all (session_params e data)) \<or>
           fault e = StmtFails 0 \<or> fault e = StmtFails 1 \<or> fault e = StmtFails 2"
  shows "\<exists>x. track_page_view_try e data db = Inl x"
  using assms by (auto simp: track_page_view_try_def split: sum.splits)

lemma track_conversion_try_fails:
  assumes "isl (bind_all [sid, ty, v, form_param e fd]) \<or>
           fault e = StmtFails 0 \<or> fault e = StmtFails 1"
  shows "\<exists>x. track_conversion_try e sid ty v fd db = Inl x"
  using assms by (auto simp: track_conversion_try_def split: sum.splits)

text \<open>
  Claim C5, as amended. Once the store handle is open, a failure of persisting a page
  view (the URL does not parse, a parameter cannot be bound, or the first insert, the
  session upsert or the commit raises) or a conversion (a parameter cannot be bound, or
  the insert or the commit raises) ends in a normal return, and the world after the call
  is the world before it with one error entry added to the log: the committed store is
  unchanged, also when the first insert had already run.
\<close>

theorem persist_failure_rolled_back:
  assumes "fault e \<noteq> ConnectFails"
  shows "(isl (urlparse_path e (get data ''page_url'' (PStr ''''))) \<or>
          isl (bind_all (page_view_params data)) \<or>
          isl (bind_all (session_params e data)) \<or>
          fault e = StmtFails 0 \<or> fault e = StmtFails 1 \<or> fault e = StmtFails 2 \<longrightarrow>
          (\<exists>x. track_page_view e data w =
                 (Inr (), w\<lparr>logged := logged w @ [Error ''Error tracking page view: '' x]\<rparr>))) \<and>
         (isl (bind_all [sid, ty, v, form_param e fd]) \<or>
          fault e = StmtFails 0 \<or> fault e = StmtFails 1 \<longrightarrow>
          (\<exists>x. track_conversion e sid ty v fd w =
                 (Inr (), w\<lparr>logged := logged w @ [Error ''Error tracking conversion: '' x]\<rparr>)))"
proof (intro conjI impI)
  assume "isl (urlparse_path e (get data ''page_url'' (PStr ''''))) \<or>
          isl (bind_all (page_view_params data)) \<or>
          isl (bind_all (session_params e data)) \<or>
          fault e = StmtFails 0 \<or> fault e = StmtFails 1 \<or> fault e = StmtFails 2"
  from track_page_view_try_fails [OF this, of "store w"]
  obtain x where "track_page_view_try e data (store w) = Inl x" ..
  from track_page_view_failed [OF assms this]
  show "\<exists>x. track_page_view e data w =
                 (Inr (), w\<lparr>logged := logged w @ [Error ''Error tracking page view: '' x]\<rparr>)"
    by (auto simp: log_error_def)
next
  assume "isl (bind_all [sid, ty, v, form_param e fd]) \<or>
          fault e = StmtFails 0 \<or> fault e = StmtFails 1"
  from track_conversion_try_fails [OF this, of "store w"]
  obtain x where "track_conversion_try e sid ty v fd (store w) = Inl x" ..
  from track_conversion_failed [OF assms this]
  show "\<exists>x. track_conversion e sid ty v fd w =
                 (Inr (), w\<lparr>logged := logged w @ [Error ''Error tracking conversion: '' x]\<rparr>)"
    by (auto simp: log_error_def)
qed

theorem persist_failure_rolled_back_witness:
  "fault (env_fault (StmtFails 1)) \<noteq> ConnectFails \<and>
   fault (env_fault (StmtFails 1)) = StmtFails 1 \<and>
   isl (bind_all [PStr ''s1'', PObj, PInt 0, form_param (env_fault (StmtFails 1)) None]) \<and>
   (\<exists>x. track_page_view (env_fault (StmtFails 1)) view_s1 w1 =
          (Inr (), w1\<lparr>logged := logged w1 @ [Error ''Error tracking page view: '' x]\<rparr>)) \<and>
   (\<exists>x. track_conversion (env_fault (StmtFails 1)) (PStr ''s1'') PObj (PInt 0) None w1 =
          (Inr (), w1\<lparr>logged := logged w1 @ [Error ''Error tracking conversion: '' x]\<rparr>))"
  using persist_failure_rolled_back [of "env_fault (StmtFails 1)" view_s1 w1 "PStr ''s1''" PObj
      "PInt 0" None]
  by (simp add: env_fault_def env0_def bind_def)

text \<open>
  The claim as stated fails where the store cannot be opened: \<open>sqlite3.connect\<close> stands
  before the \<open>try\<close>, so its exception leaves \<open>track_page_view\<close> and nothing is logged.
\<close>

theorem connect_failure_raises:
  "track_page_view (env_fault ConnectFails) view_s1 w0 = (Inl OperationalError, w0) \<and>
   track_conversion (env_fault ConnectFails) (PStr ''s1'') (PStr ''form'') (PInt 0) None w0 =
     (Inl OperationalError, w0)"
  by (simp add: track_page_view_def track_conversion_def env_fault_def env0_def)

section \<open>Errors while building a report\<close>

lemma digit_char_digit: "d < 10 \<Longrightarrow> digit_char d \<in> set ''0123456789''"
proof -
  assume "d < 10"
  then have "d \<in> {0, 1, 2, 3, 4, 5, 6, 7, 8, 9}" by auto
  then show ?thesis by (auto simp: digit_char_def)
qed

lemma str_nat_digits: "set (str_nat n) \<subseteq> set ''0123456789''"
proof (induction n rule: str_nat.induct)
  case (1 n)
  show ?case
  proof (cases "n < 10")
    case True
    then show ?thesis using digit_char_digit [of n] by (subst str_nat.simps) simp
  next
    case False
    then show ?thesis
      using 1 digit_char_digit [of "n mod 10"] by (subst str_nat.simps) simp
  qed
qed

lemma pad_digits: "set s \<subseteq> set ''0123456789'' \<Longrightarrow> set (pad k s) \<subseteq> set ''0123456789''"
  by (auto simp: pad_def)

lemma sql_date_chars: "set (sql_date t) \<subseteq> set ''0123456789-''"
proof
  fix c
  assume "c \<in> set (sql_date t)"
  then consider "c \<in> set (pad 4 (str_nat (t_year t)))" | "c \<in> set (pad 2 (str_nat (t_month t)))"
    | "c \<in> set (pad 2 (str_nat (t_day t)))" | "c = CHR ''-''"
    unfolding sql_date_def set_append by auto
  then have "c \<in> set ''0123456789'' \<or> c = CHR ''-''"
    using pad_digits [OF str_nat_digits] by cases blast+
  then show "c \<in> set ''0123456789-''" by auto
qed

lemma bad_date_no_rows:
  assumes "\<not> set d \<subseteq> set ''0123456789-''"
  shows "day_views d db = [] \<and> day_conversions d db = []"
proof -
  have "sql_date t \<noteq> d" for t
  proof
    assume "sql_date t = d"
    with sql_date_chars [of t] have "set d \<subseteq> set ''0123456789-''" by (simp only:)
    with assms show False by (rule notE)
  qed
  then show ?thesis by (simp add: day_views_def day_conversions_def)
qed

lemma top_pages_Nil: "top_pages tk [] = []"
  by (simp add: top_pages_def group_by_def sql_limit_def)

lemma top_referrers_Nil: "top_referrers tk [] = []"
  by (simp add: top_referrers_def group_by_def sql_limit_def)

lemma daily_queries_no_rows:
  "day_views d db = [] \<Longrightarrow> day_conversions d db = [] \<Longrightarrow>
   fst (daily_queries tk f d db) = default_report d"
  by (simp add: daily_queries_def Let_def default_report_def top_pages_Nil top_referrers_Nil
        count_distinct_def)

lemma daily_queries_partial:
  "fst (daily_queries tk (StmtFails k) d db) = r \<Longrightarrow>
   (k = 0 \<longrightarrow> r = default_report d) \<and> (k \<le> 1 \<longrightarrow> r_page_views r = 0) \<and>
   (k \<le> 2 \<longrightarrow> r_top_pages r = []) \<and> (k \<le> 3 \<longrightarrow> r_referrers r = []) \<and>
   (k \<le> 4 \<longrightarrow> r_conversions r = 0)"
  by (auto simp: daily_queries_def Let_def default_report_def)

lemma get_daily_report_returns:
  "fault e \<noteq> ConnectFails \<Longrightarrow>
   fst (get_daily_report e date w) =
     Inr (fst (daily_queries (tie_order e) (fault e) (report_date e date) (store w)))"
  by (simp add: get_daily_report_def store_open_handle split: prod.splits option.splits)

lemma get_popular_pages_error:
  "fault e \<noteq> ConnectFails \<Longrightarrow>
   isl (minus_days e (now e 0) days) \<or> isl (bind (PInt limit)) \<or> fault e = StmtFails 0 \<Longrightarrow>
   fst (get_popular_pages e days limit w) = Inr []"
  by (auto simp: get_popular_pages_def get_popular_pages_try_def bind_def
           split: sum.splits if_splits)


text \<open>
  Claim C6, as amended. Once the store handle is open, no error of the queries leaves
  either operation. \<open>get_daily_report\<close> returns a report in which every field whose
  query had not run when the error came keeps its default; it is the default report when
  the first query fails, and (without any error) when the date matches no stored event,
  as for every date text with a character other than digits and \<open>-\<close>.
  \<open>get_popular_pages\<close> returns the empty list when the date arithmetic, the binding
  of the limit or the query raises.
\<close>

theorem aggregation_errors_contained:
  assumes "fault e \<noteq> ConnectFails" and "fault e' \<noteq> ConnectFails"
  shows "(\<exists>r. fst (get_daily_report e date w) = Inr r \<and>
            (fault e = StmtFails 0 \<longrightarrow> r = default_report (report_date e date)) \<and>
            (\<not> set (report_date e date) \<subseteq> set ''0123456789-'' \<longrightarrow>
               r = default_report (report_date e date)) \<and>
            (\<forall>k. fault e = StmtFails k \<longrightarrow>
               (k \<le> 1 \<longrightarrow> r_page_views r = 0) \<and> (k \<le> 2 \<longrightarrow> r_top_pages r = []) \<and>
               (k \<le> 3 \<longrightarrow> r_referrers r = []) \<and> (k \<le> 4 \<longrightarrow> r_conversions r = 0))) \<and>
         (isl (minus_days e' (now e' 0) days) \<or> isl (bind (PInt limit)) \<or>
          fault e' = StmtFails 0 \<longrightarrow>
            fst (get_popular_pages e' days limit w) = Inr [])"
proof (intro conjI exI impI allI)
  let ?d = "report_date e date"
  let ?r = "fst (daily_queries (tie_order e) (fault e) ?d (store w))"
  show "fst (get_daily_report e date w) = Inr ?r"
    by (rule get_daily_report_returns [OF assms(1)])
  show "?r = default_report ?d" if "fault e = StmtFails 0"
    using daily_queries_partial [of "tie_order e" 0 ?d "store w" ?r] that by simp
  show "?r = default_report ?d" if "\<not> set ?d \<subseteq> set ''0123456789-''"
    using bad_date_no_rows [OF that, of "store w"] by (intro daily_queries_no_rows) blast+
  show "r_page_views ?r = 0" if "fault e = StmtFails k" "k \<le> 1" for k
    using daily_queries_partial [of "tie_order e" k ?d "store w" ?r] that by simp
  show "r_top_pages ?r = []" if "fault e = StmtFails k" "k \<le> 2" for k
    using daily_queries_partial [of "tie_order e" k ?d "store w" ?r] that by simp
  show "r_referrers ?r = []" if "fault e = StmtFails k" "k \<le> 3" for k
    using daily_queries_partial [of "tie_order e" k ?d "store w" ?r] that by simp
  show "r_conversions ?r = 0" if "fault e = StmtFails k" "k \<le> 4" for k
    using daily_queries_partial [of "tie_order e" k ?d "store w" ?r] that by simp
  show "fst (get_popular_pages e' days limit w) = Inr []"
    if "isl (minus_days e' (now e' 0) days) \<or> isl (bind (PInt limit)) \<or> fault e' = StmtFails 0"
    by (rule get_popular_pages_error [OF assms(2) that])
qed

theorem aggregation_errors_contained_witness:
  "fault (env_fault (StmtFails 0)) \<noteq> ConnectFails \<and>
   fault (env_fault (StmtFails 0)) = StmtFails 0 \<and>
   fst (get_daily_report (env_fault (StmtFails 0)) (Some ''2024-01-05'') w1) =
     Inr (default_report ''2024-01-05'') \<and>
   fst (get_popular_pages (env_fault (StmtFails 0)) 7 10 w1) = Inr [] \<and>
   fault env0 \<noteq> ConnectFails \<and>
   \<not> set (report_date env0 (Some ''05/01/2024'')) \<subseteq> set ''0123456789-'' \<and>
   fst (get_daily_report env0 (Some ''05/01/2024'') w1) = Inr (default_report ''05/01/2024'')"
proof -
  have f: "fault (env_fault (StmtFails 0)) \<noteq> ConnectFails"
    and g: "fault (env_fault (StmtFails 0)) = StmtFails 0"
    by (simp_all add: env_fault_def)
  have d: "report_date (env_fault (StmtFails 0)) (Some ''2024-01-05'') = ''2024-01-05''"
    by (simp add: report_date_def)
  have f0: "fault env0 \<noteq> ConnectFails" by (simp add: env0_def)
  have d0: "report_date env0 (Some ''05/01/2024'') = ''05/01/2024''"
    by (simp add: report_date_def)
  have b: "\<not> set (report_date env0 (Some ''05/01/2024'')) \<subseteq> set ''0123456789-''"
    unfolding d0 by simp
  from aggregation_errors_contained [OF f f, of "Some ''2024-01-05''" w1 7 10] g d
  have 1: "fst (get_daily_report (env_fault (StmtFails 0)) (Some ''2024-01-05'') w1) =
     Inr (default_report ''2024-01-05'')"
    and 2: "fst (get_popular_pages (env_fault (StmtFails 0)) 7 10 w1) = Inr []"
    by auto
  from aggregation_errors_contained [OF f0 f0, of "Some ''05/01/2024''" w1 7 10] b
  have 3: "fst (get_daily_report env0 (Some ''05/01/2024'') w1) = Inr (default_report ''05/01/2024'')"
    unfolding d0 by blast
  from f g 1 2 f0 b 3 show ?thesis by (intro conjI)
qed

text \<open>
  The claim as stated fails when a later query raises: the fields that the earlier
  queries wrote stay in the report. Here the third query fails on a store with two page
  views on the date.
\<close>

theorem partial_report_on_late_failure:
  "fst (get_daily_report (env_fault (StmtFails 2)) (Some ''2024-01-05'') w1) =
     Inr ((default_report ''2024-01-05'')
            \<lparr>r_total_visits := 2, r_unique_visitors := 1, r_page_views := 2\<rparr>) \<and>
   (default_report ''2024-01-05'')
      \<lparr>r_total_visits := 2, r_unique_visitors := 1, r_page_views := 2\<rparr> \<noteq>
   default_report ''2024-01-05''"
proof -
  have f: "fault (env_fault (StmtFails 2)) \<noteq> ConnectFails"
    and g: "fault (env_fault (StmtFails 2)) = StmtFails 2"
    by (simp_all add: env_fault_def)
  have d: "report_date (env_fault (StmtFails 2)) (Some ''2024-01-05'') = ''2024-01-05''"
    by (simp add: report_date_def)
  have s: "store w1 = db1" by (simp add: w1_def)
  have q: "fst (daily_queries tk (StmtFails 2) ''2024-01-05'' db1) =
      (default_report ''2024-01-05'')
            \<lparr>r_total_visits := 2, r_unique_visitors := 1, r_page_views := 2\<rparr>" for tk
    by (simp add: daily_queries_def Let_def day_views_db1 count_distinct_def default_report_def)
  show ?thesis
    unfolding get_daily_report_returns [OF f] g d s q
    by (simp add: default_report_def)
qed

section \<open>A page view that is recorded\<close>

lemma bind_all_Inr:
  "bind_all vs = Inr cs \<Longrightarrow> length cs = length vs \<and> (\<forall>i < length vs. bind (vs ! i) = Inr (cs ! i))"
proof (induction vs arbitrary: cs)
  case Nil
  then show ?case by simp
next
  case (Cons v vs)
  from Cons.prems obtain c cs' where c: "bind v = Inr c" and cs': "bind_all vs = Inr cs'"
    and cs: "cs = c # cs'"
    by (auto split: sum.splits)
  from Cons.IH [OF cs'] c cs show ?case
    by (auto simp: nth_Cons split: nat.splits)
qed

lemma bind_all_total:
  "(\<forall>v \<in> set vs. \<not> isl (bind v)) \<Longrightarrow> \<exists>cs. bind_all vs = Inr cs"
proof (induction vs)
  case Nil
  then show ?case by simp
next
  case (Cons v vs)
  then obtain cs where "bind_all vs = Inr cs" by auto
  moreover from Cons.prems obtain c where "bind v = Inr c" by (cases "bind v") auto
  ultimately show ?case by simp
qed

lemma get_bindable:
  "\<forall>k v. data k = Some v \<longrightarrow> \<not> isl (bind v) \<Longrightarrow> \<not> isl (bind dflt) \<Longrightarrow>
   \<not> isl (bind (get data k dflt))"
  by (auto simp: get_def split: option.splits)

lemma bind_defaults:
  "\<not> isl (bind PNone)" "\<not> isl (bind (PStr s))" "\<not> isl (bind (PInt 0))"
  by (simp_all add: bind_def)

lemma page_view_params_bind:
  assumes "\<forall>k v. data k = Some v \<longrightarrow> \<not> isl (bind v)"
  shows "\<exists>cs. bind_all (page_view_params data) = Inr cs"
  by (rule bind_all_total) (simp add: page_view_params_def get_bindable [OF assms] bind_defaults)

lemma session_params_bind:
  assumes "\<forall>k v. data k = Some v \<longrightarrow> \<not> isl (bind v)"
  shows "\<exists>ss. bind_all (session_params e data) = Inr ss"
  by (rule bind_all_total) (simp add: session_params_def get_bindable [OF assms] bind_defaults)

lemma track_page_view_ok:
  assumes "fault e = NoFault"
    and "urlparse_path e (get data ''page_url'' (PStr '''')) = Inr p"
    and "bind_all (page_view_params data) = Inr cs"
    and "bind_all (session_params e data) = Inr ss"
  shows "track_page_view e data w =
     (Inr (), (log_info ''Page view tracked: '' (PStr p) w)
        \<lparr>store := upsert_session ss (insert_page_view (db_now e) cs (store w))\<rparr>)"
  using assms
  by (simp add: track_page_view_def track_page_view_try_def store_open_handle)
     (simp add: open_handle_def close_handle_def log_info_def)

lemma page_views_recorded:
  "page_views (upsert_session ss (insert_page_view ts cs db)) =
     page_views db @
       [\<lparr>pv_id = next_id (map pv_id (page_views db)),
         pv_session_id = text_affinity (cs ! 0),
         pv_page_url = text_affinity (cs ! 1),
         pv_page_title = text_affinity (cs ! 2),
         pv_referrer = text_affinity (cs ! 3),
         pv_user_agent = text_affinity (cs ! 4),
         pv_ip_address = text_affinity (cs ! 5),
         pv_country = text_affinity (cs ! 6),
         pv_city = text_affinity (cs ! 7),
         pv_timestamp = ts,
         pv_time_on_page = cs ! 8,
         pv_scroll_depth = cs ! 9\<rparr>]"
  by (simp add: upsert_session_def insert_page_view_def)

lemma page_view_cell:
  assumes "bind_all (page_view_params data) = Inr cs" and "i < 10"
  shows "bind (page_view_params data ! i) = Inr (cs ! i)"
  using bind_all_Inr [OF assms(1)] assms(2) by (simp add: page_view_params_def)

lemma stored_default:
  assumes "bind_all (page_view_params data) = Inr cs" and "i < 10"
    and "bind (page_view_params data ! i) = Inr c"
  shows "cs ! i = c"
  using page_view_cell [OF assms(1,2)] assms(3) by simp

text \<open>
  Claim C9, as amended. A payload whose present values can all be bound, and whose URL
  the parser accepts, is recorded whatever fields are missing: one row is appended to
  \<open>page_views\<close>, in which a missing \<open>page_url\<close>, \<open>page_title\<close>, \<open>referrer\<close>,
  \<open>user_agent\<close> or \<open>ip_address\<close> is the empty text, a missing \<open>country\<close> or \<open>city\<close> is
  the text \<open>Unknown\<close>, and a missing \<open>time_on_page\<close> or \<open>scroll_depth\<close> is 0. The
  session id is not validated: a text is stored as it is given and a missing one as NULL.
\<close>

theorem missing_fields_defaulted:
  assumes "fault e = NoFault"
    and "\<not> isl (urlparse_path e (get data ''page_url'' (PStr '''')))"
    and "\<forall>k v. data k = Some v \<longrightarrow> \<not> isl (bind v)"
  shows "fst (track_page_view e data w) = Inr () \<and>
     (\<exists>row. page_views (store (snd (track_page_view e data w))) = page_views (store w) @ [row] \<and>
        (data ''session_id'' = None \<longrightarrow> pv_session_id row = Null) \<and>
        (\<forall>s. data ''session_id'' = Some (PStr s) \<longrightarrow> pv_session_id row = Text s) \<and>
        (data ''page_url'' = None \<longrightarrow> pv_page_url row = Text '''') \<and>
        (data ''page_title'' = None \<longrightarrow> pv_page_title row = Text '''') \<and>
        (data ''referrer'' = None \<longrightarrow> pv_referrer row = Text '''') \<and>
        (data ''user_agent'' = None \<longrightarrow> pv_user_agent row = Text '''') \<and>
        (data ''ip_address'' = None \<longrightarrow> pv_ip_address row = Text '''') \<and>
        (data ''country'' = None \<longrightarrow> pv_country row = Text ''Unknown'') \<and>
        (data ''city'' = None \<longrightarrow> pv_city row = Text ''Unknown'') \<and>
        (data ''time_on_page'' = None \<longrightarrow> pv_time_on_page row = Integer 0) \<and>
        (data ''scroll_depth'' = None \<longrightarrow> pv_scroll_depth row = Integer 0))"
proof -
  from assms(2) obtain p where p: "urlparse_path e (get data ''page_url'' (PStr '''')) = Inr p"
    by (cases "urlparse_path e (get data ''page_url'' (PStr ''''))") auto
  from page_view_params_bind [OF assms(3)]
  obtain cs where cs: "bind_all (page_view_params data) = Inr cs" ..
  from session_params_bind [OF assms(3)]
  obtain ss where ss: "bind_all (session_params e data) = Inr ss" ..
  note ok = track_page_view_ok [OF assms(1) p cs ss, of w]
  note cell = stored_default [OF cs]
  have sid_none: "cs ! 0 = Null" if "data ''session_id'' = None"
    by (rule cell) (simp_all add: page_view_params_def get_def that bind_def)
  have sid_text: "cs ! 0 = Text s" if "data ''session_id'' = Some (PStr s)" for s
    by (rule cell) (simp_all add: page_view_params_def get_def that bind_def)
  have url: "cs ! Suc 0 = Text ''''" if "data ''page_url'' = None"
    by (rule cell) (simp_all add: page_view_params_def get_def that bind_def)
  have title: "cs ! 2 = Text ''''" if "data ''page_title'' = None"
    by (rule cell) (simp_all add: page_view_params_def get_def that bind_def)
  have ref: "cs ! 3 = Text ''''" if "data ''referrer'' = None"
    by (rule cell) (simp_all add: page_view_params_def get_def that bind_def)
  have agent: "cs ! 4 = Text ''''" if "data ''user_agent'' = None"
    by (rule cell) (simp_all add: page_view_params_def get_def that bind_def)
  have ip: "cs ! 5 = Text ''''" if "data ''ip_address'' = None"
    by (rule cell) (simp_all add: page_view_params_def get_def that bind_def)
  have country: "cs ! 6 = Text ''Unknown''" if "data ''country'' = None"
    by (rule cell) (simp_all add: page_view_params_def get_def that bind_def)
  have city: "cs ! 7 = Text ''Unknown''" if "data ''city'' = None"
    by (rule cell) (simp_all add: page_view_params_def get_def that bind_def)
  have top: "cs ! 8 = Integer 0" if "data ''time_on_page'' = None"
    by (rule cell) (simp_all add: page_view_params_def get_def that bind_def)
  have depth: "cs ! 9 = Integer 0" if "data ''scroll_depth'' = None"
    by (rule cell) (simp_all add: page_view_params_def get_def that bind_def)
  show ?thesis
    unfolding ok
    by (simp add: page_views_recorded sid_none sid_text url title ref agent ip country city top
          depth text_affinity_def)
qed

theorem missing_fields_defaulted_witness:
  "fault env0 = NoFault \<and>
   \<not> isl (urlparse_path env0 (get view_s1 ''page_url'' (PStr ''''))) \<and>
   \<not> isl (bind (PStr ''s1'')) \<and> \<not> isl (bind (PStr ''/a'')) \<and>
   fst (track_page_view env0 view_s1 w0) = Inr () \<and>
   (\<exists>row. page_views (store (snd (track_page_view env0 view_s1 w0))) = [row] \<and>
        pv_session_id row = Text ''s1'' \<and> pv_page_title row = Text '''' \<and>
        pv_country row = Text ''Unknown'' \<and> pv_scroll_depth row = Integer 0)"
proof -
  have f: "fault env0 = NoFault" by (simp add: env0_def)
  have u: "\<not> isl (urlparse_path env0 (get view_s1 ''page_url'' (PStr '''')))"
    by (simp add: env0_def view_s1_def get_def)
  have b: "\<forall>k v. view_s1 k = Some v \<longrightarrow> \<not> isl (bind v)"
    by (simp add: view_s1_def bind_def)
  have c: "\<not> isl (bind (PStr ''s1''))" "\<not> isl (bind (PStr ''/a''))"
    by (simp_all add: bind_def)
  have s: "view_s1 ''session_id'' = Some (PStr ''s1'')" "view_s1 ''page_title'' = None"
    "view_s1 ''country'' = None" "view_s1 ''scroll_depth'' = None"
    by (simp_all add: view_s1_def)
  have w: "page_views (store w0) = []" by (simp add: w0_def empty_db_def)
  from missing_fields_defaulted [OF f u b, of w0] s w f u c show ?thesis
    by auto
qed

text \<open>
  The claim as stated fails for \<open>country\<close> and \<open>city\<close>: their default is the text
  \<open>Unknown\<close>, not the empty text. Here the payload is empty.
\<close>

theorem missing_country_stored_unknown:
  "map pv_country (page_views (store (snd (track_page_view env0 Map.empty w0)))) =
     [Text ''Unknown''] \<and>
   map pv_city (page_views (store (snd (track_page_view env0 Map.empty w0)))) =
     [Text ''Unknown'']"
proof -
  have f: "fault env0 = NoFault" by (simp add: env0_def)
  have u: "urlparse_path env0 (get Map.empty ''page_url'' (PStr '''')) = Inr ''''"
    by (simp add: env0_def get_def)
  have cs: "bind_all (page_view_params Map.empty) =
      Inr [Null, Text '''', Text '''', Text '''', Text '''', Text '''', Text ''Unknown'',
           Text ''Unknown'', Integer 0, Integer 0]"
    by (simp add: page_view_params_def get_def bind_def)
  obtain ss where ss: "bind_all (session_params env0 Map.empty) = Inr ss"
    using session_params_bind [of Map.empty env0] by auto
  have w: "page_views (store w0) = []" by (simp add: w0_def empty_db_def)
  show ?thesis
    unfolding track_page_view_ok [OF f u cs ss]
    by (simp add: page_views_recorded w text_affinity_def)
qed

section \<open>The session row of a key\<close>

lemma upsert_unseen:
  assumes "s_session_id new = k" and "k \<noteq> Null"
    and "filter (\<lambda>s. s_session_id s = k) rs = []"
  shows "filter (\<lambda>s. s_session_id s = k) (upsert new lv rs) = [new]"
  using assms by (induction rs) (auto split: if_splits)

lemma upsert_seen:
  assumes "s_session_id new = k" and "k \<noteq> Null"
    and "filter (\<lambda>s. s_session_id s = k) rs = [r]"
  shows "filter (\<lambda>s. s_session_id s = k) (upsert new lv rs) =
           [r\<lparr>s_last_visit := lv, s_total_views := s_total_views r + 1\<rparr>]"
  using assms
proof (induction rs)
  case Nil
  then show ?case by simp
next
  case (Cons a rs)
  show ?case
  proof (cases "s_session_id a = k")
    case True
    with Cons.prems have "a = r" "filter (\<lambda>s. s_session_id s = k) rs = []" by auto
    with True Cons.prems(1,2) show ?thesis by simp
  next
    case False
    with Cons.prems have "filter (\<lambda>s. s_session_id s = k) rs = [r]" by simp
    from Cons.IH [OF Cons.prems(1,2) this] False Cons.prems(1) show ?thesis by simp
  qed
qed

lemma session_cell:
  assumes "bind_all (session_params e data) = Inr ss" and "i < 9"
  shows "bind (session_params e data ! i) = Inr (ss ! i)"
  using bind_all_Inr [OF assms(1)] assms(2) by (simp add: session_params_def)

lemma track_page_view_sessions:
  assumes "recorded e data" and "session_key data = Inr k"
  shows "\<exists>new. sessions (store (snd (track_page_view e data w))) =
                  upsert new (Text (isoformat (now e 2))) (sessions (store w)) \<and>
               s_session_id new = k \<and> s_total_views new = 1 \<and>
               s_first_visit new = Text (isoformat (now e 0)) \<and>
               s_last_visit new = Text (isoformat (now e 1))"
proof -
  from assms(1) have f: "fault e = NoFault" by (simp add: recorded_def)
  from assms(1) obtain p where p: "urlparse_path e (get data ''page_url'' (PStr '''')) = Inr p"
    by (cases "urlparse_path e (get data ''page_url'' (PStr ''''))") (auto simp: recorded_def)
  from assms(1) obtain cs where cs: "bind_all (page_view_params data) = Inr cs"
    by (cases "bind_all (page_view_params data)") (auto simp: recorded_def)
  from assms(1) obtain ss where ss: "bind_all (session_params e data) = Inr ss"
    by (cases "bind_all (session_params e data)") (auto simp: recorded_def)
  note cell = session_cell [OF ss]
  have "bind (get data ''session_id'' PNone) = Inr (ss ! 0)"
    using cell [of 0] by (simp add: session_params_def)
  with assms(2) have k: "text_affinity (ss ! 0) = k" by (simp add: session_key_def)
  have fv: "ss ! 6 = Text (isoformat (now e 0))"
    using cell [of 6] by (simp add: session_params_def bind_def)
  have lv: "ss ! 7 = Text (isoformat (now e 1))"
    using cell [of 7] by (simp add: session_params_def bind_def)
  have up: "ss ! 8 = Text (isoformat (now e 2))"
    using cell [of 8] by (simp add: session_params_def bind_def)
  show ?thesis
    unfolding track_page_view_ok [OF f p cs ss]
    by (simp add: upsert_session_def insert_page_view_def k fv lv up)
       (rule exI, intro conjI, rule refl, simp_all)
qed

lemma first_view:
  assumes "recorded e data" and "session_key data = Inr k" and "k \<noteq> Null"
    and "session_rows k w = []"
  shows "\<exists>row. session_rows k (snd (track_page_view e data w)) = [row] \<and>
               s_total_views row = 1 \<and>
               s_first_visit row = Text (isoformat (now e 0)) \<and>
               s_last_visit row = Text (isoformat (now e 1))"
proof -
  from track_page_view_sessions [OF assms(1,2), of w] obtain new where
    n: "sessions (store (snd (track_page_view e data w))) =
          upsert new (Text (isoformat (now e 2))) (sessions (store w))"
      "s_session_id new = k" "s_total_views new = 1"
      "s_first_visit new = Text (isoformat (now e 0))"
      "s_last_visit new = Text (isoformat (now e 1))"
    by blast
  from upsert_unseen [OF n(2) assms(3), of "sessions (store w)"] assms(4) n show ?thesis
    by (simp add: session_rows_def)
qed

lemma later_view:
  assumes "recorded e data" and "session_key data = Inr k" and "k \<noteq> Null"
    and "session_rows k w = [r]"
  shows "session_rows k (snd (track_page_view e data w)) =
           [r\<lparr>s_last_visit := Text (isoformat (now e 2)),
               s_total_views := s_total_views r + 1\<rparr>]"
proof -
  from track_page_view_sessions [OF assms(1,2), of w] obtain new where
    n: "sessions (store (snd (track_page_view e data w))) =
          upsert new (Text (isoformat (now e 2))) (sessions (store w))"
      "s_session_id new = k"
    by blast
  from upsert_seen [OF n(2) assms(3), of "sessions (store w)" r] assms(4) n show ?thesis
    by (simp add: session_rows_def)
qed

lemma track_all_snoc:
  "track_all (evs @ [ev]) w = snd (track_page_view (fst ev) (snd ev) (track_all evs w))"
  by (induction evs arbitrary: w) simp_all

text \<open>
  Claim C1, as amended. Let \<open>N \<ge> 1\<close> page views with the same session id be recorded one
  after the other, the id not NULL and no session row with it in the store before. Then
  the store has exactly one session row with that id, its \<open>total_views\<close> is \<open>N\<close>, its
  \<open>first_visit\<close> is the first reading of the application clock in the first call, and its
  \<open>last_visit\<close> is the reading of the application clock that the last call bound for it:
  the second reading of the first call when \<open>N = 1\<close>, the third reading of the last call
  otherwise. (The lemmas \<open>first_view\<close> and \<open>later_view\<close> are the two cases of the upsert.)
\<close>

theorem session_counts_views:
  assumes "evs \<noteq> []"
    and "\<forall>ev \<in> set evs. recorded (fst ev) (snd ev) \<and> session_key (snd ev) = Inr k"
    and "k \<noteq> Null"
    and "session_rows k w = []"
  shows "\<exists>row. session_rows k (track_all evs w) = [row] \<and>
           s_total_views row = int (length evs) \<and>
           s_first_visit row = Text (isoformat (now (fst (hd evs)) 0)) \<and>
           s_last_visit row =
             (if length evs = 1 then Text (isoformat (now (fst (hd evs)) 1))
              else Text (isoformat (now (fst (last evs)) 2)))"
  using assms(1,2)
proof (induction evs rule: rev_nonempty_induct)
  case (single ev)
  then have "recorded (fst ev) (snd ev)" "session_key (snd ev) = Inr k" by simp_all
  from first_view [OF this assms(3,4)] show ?case by simp
next
  case (snoc ev evs)
  then have ev: "recorded (fst ev) (snd ev)" "session_key (snd ev) = Inr k" by simp_all
  from snoc obtain row where row: "session_rows k (track_all evs w) = [row]"
    and tv: "s_total_views row = int (length evs)"
    and fv: "s_first_visit row = Text (isoformat (now (fst (hd evs)) 0))"
    by auto
  from later_view [OF ev assms(3) row] tv fv snoc(1) show ?case
    by (simp add: track_all_snoc)
qed

lemma recorded_view_s1: "recorded (env_at n) view_s1"
  by (simp add: recorded_def env_at_def env0_def view_s1_def get_def page_view_params_def
        session_params_def bind_def)

lemma session_key_view_s1: "session_key view_s1 = Inr (Text ''s1'')"
  by (simp add: session_key_def view_s1_def get_def bind_def text_affinity_def)

lemma session_rows_w0: "session_rows k w0 = []"
  by (simp add: session_rows_def w0_def empty_db_def)

theorem session_counts_views_witness:
  "recorded (env_at 0) view_s1 \<and> recorded (env_at 10) view_s1 \<and>
   session_key view_s1 = Inr (Text ''s1'') \<and>
   Text ''s1'' \<noteq> Null \<and> session_rows (Text ''s1'') w0 = [] \<and>
   (\<exists>row. session_rows (Text ''s1'')
            (track_all [(env_at 0, view_s1), (env_at 10, view_s1)] w0) = [row] \<and>
          s_total_views row = 2 \<and>
          s_first_visit row = Text (isoformat (clock0 0)) \<and>
          s_last_visit row = Text (isoformat (clock0 12)))"
proof -
  have h: "\<forall>ev \<in> set [(env_at 0, view_s1), (env_at 10, view_s1)].
      recorded (fst ev) (snd ev) \<and> session_key (snd ev) = Inr (Text ''s1'')"
    by (simp add: recorded_view_s1 session_key_view_s1)
  have n: "now (env_at 0) 0 = clock0 0" "now (env_at 10) 2 = clock0 12"
    by (simp_all add: env_at_def)
  from session_counts_views [OF _ h _ session_rows_w0] n session_rows_w0
    recorded_view_s1 session_key_view_s1
  show ?thesis by simp
qed

text \<open>
  The claim as stated fails on the first event: \<open>first_visit\<close> and \<open>last_visit\<close> are bound
  from two readings of the clock, one after the other, and differ when the clock has
  moved between them (here by one microsecond).
\<close>

theorem first_and_last_visit_differ:
  "map s_first_visit (sessions (store (snd (track_page_view (env_at 0) view_s1 w0)))) =
     [Text ''2024-01-05T12:00:00.000100''] \<and>
   map s_last_visit (sessions (store (snd (track_page_view (env_at 0) view_s1 w0)))) =
     [Text ''2024-01-05T12:00:00.000101''] \<and>
   map s_total_views (sessions (store (snd (track_page_view (env_at 0) view_s1 w0)))) = [1]"
proof -
  have i0: "isoformat (now (env_at 0) 0) = ''2024-01-05T12:00:00.000100''"
    unfolding env_at_def by code_simp
  have i1: "isoformat (now (env_at 0) (Suc 0)) = ''2024-01-05T12:00:00.000101''"
    unfolding env_at_def by code_simp
  have s: "sessions (store w0) = []" by (simp add: w0_def empty_db_def)
  from track_page_view_sessions [OF recorded_view_s1 session_key_view_s1, of 0 w0]
  show ?thesis by (auto simp: s i0 i1)
qed

section \<open>Decimal numbers read back\<close>

lemma digit_of_digit_char: "d < 10 \<Longrightarrow> digit_of (digit_char d) = Some d"
proof -
  assume "d < 10"
  then have "d \<in> {0, 1, 2, 3, 4, 5, 6, 7, 8, 9}" by auto
  then show ?thesis by (auto simp: digit_char_def digit_of_def)
qed

lemma parse_digits_append:
  "parse_digits acc (xs @ ys) =
     (case parse_digits acc xs of None \<Rightarrow> None | Some a \<Rightarrow> parse_digits a ys)"
  by (induction xs arbitrary: acc) (auto split: option.splits)

lemma parse_digits_str_nat: "parse_digits 0 (str_nat n) = Some n"
proof (induction n rule: str_nat.induct)
  case (1 n)
  show ?case
  proof (cases "n < 10")
    case True
    then show ?thesis by (subst str_nat.simps) (simp add: digit_of_digit_char)
  next
    case False
    with 1 have "parse_digits 0 (str_nat (n div 10)) = Some (n div 10)" by simp
    with False show ?thesis
      by (subst str_nat.simps) (simp add: parse_digits_append digit_of_digit_char)
  qed
qed

lemma str_nat_not_Nil: "str_nat n \<noteq> []"
  by (subst str_nat.simps) simp

lemma parse_nat_str_nat: "parse_nat (str_nat n) = Some n"
  by (simp add: parse_nat_def str_nat_not_Nil parse_digits_str_nat)

section \<open>Lines\<close>

lemma split_on_line:
  "c \<notin> set l \<Longrightarrow> split_on c (l @ c # rest) = l # split_on c rest"
  by (induction l) (auto split: list.splits)

lemma join_lines_Cons: "ls \<noteq> [] \<Longrightarrow> join_lines (l # ls) = l @ CHR 0x0A # join_lines ls"
  by (cases ls) simp_all

lemma split_on_join_lines:
  "CHR 0x0A \<notin> set l \<Longrightarrow> ls \<noteq> [] \<Longrightarrow>
   split_on (CHR 0x0A) (join_lines (l # ls)) = l # split_on (CHR 0x0A) (join_lines ls)"
  by (simp add: join_lines_Cons split_on_line)

section \<open>The tabular export\<close>

lemma newline_not_digit: "CHR 0x0A \<notin> set ''0123456789''"
  by simp

lemma str_nat_no_newline: "CHR 0x0A \<notin> set (str_nat n)"
  using str_nat_digits [of n] newline_not_digit by blast

lemma pad_no_newline: "CHR 0x0A \<notin> set (pad k (str_nat n))"
  using pad_digits [OF str_nat_digits, of k n] newline_not_digit by blast

lemma strftime_ymd_no_newline: "CHR 0x0A \<notin> set (strftime_ymd t)"
  by (simp add: strftime_ymd_def pad_no_newline)

lemma isoformat_no_newline: "CHR 0x0A \<notin> set (isoformat t)"
  by (simp add: isoformat_def strftime_ymd_no_newline pad_no_newline)

lemma csv_lines_shape:
  "csv_lines data =
     ''Metric,Value'' # (''Export Date,'' @ export_date data) #
     (''Total Visits,'' @ str_nat (r_total_visits (summary data))) #
     ((''Unique Visitors,'' @ str_nat (r_unique_visitors (summary data))) #
      (''Page Views,'' @ str_nat (r_page_views (summary data))) #
      (''Conversions,'' @ str_nat (r_conversions (summary data))) #
      '''' # ''Popular Pages,Views,Unique Visitors'' #
      map (\<lambda>p. fstr (pp_page_url p) @ '','' @ str_nat (pp_total_views p) @ '','' @
                str_nat (pp_unique_visitors p))
        (popular_pages data))"
  by (simp add: csv_lines_def)

lemma parse_total_visits_csv:
  assumes "CHR 0x0A \<notin> set (export_date data)"
  shows "parse_total_visits (join_lines (csv_lines data)) = Some (r_total_visits (summary data))"
proof -
  let ?nl = "CHR 0x0A"
  let ?tail = "(''Unique Visitors,'' @ str_nat (r_unique_visitors (summary data))) #
      (''Page Views,'' @ str_nat (r_page_views (summary data))) #
      (''Conversions,'' @ str_nat (r_conversions (summary data))) #
      '''' # ''Popular Pages,Views,Unique Visitors'' #
      map (\<lambda>p. fstr (pp_page_url p) @ '','' @ str_nat (pp_total_views p) @ '','' @
                str_nat (pp_unique_visitors p))
        (popular_pages data)"
  let ?l2 = "''Total Visits,'' @ str_nat (r_total_visits (summary data))"
  let ?l1 = "''Export Date,'' @ export_date data"
  have n0: "?nl \<notin> set ''Metric,Value''" by simp
  have n1: "?nl \<notin> set ?l1" using assms by simp
  have n2: "?nl \<notin> set ?l2" using str_nat_no_newline by simp
  have "split_on ?nl (join_lines (csv_lines data)) =
          ''Metric,Value'' # ?l1 # ?l2 # split_on ?nl (join_lines ?tail)"
    unfolding csv_lines_shape
    by (simp only: split_on_join_lines [OF n0] split_on_join_lines [OF n1]
          split_on_join_lines [OF n2] list.distinct not_False_eq_True)
  then show ?thesis
    by (simp add: parse_total_visits_def parse_nat_str_nat)
qed

lemma get_popular_pages_returns:
  "fault e \<noteq> ConnectFails \<Longrightarrow> \<exists>ps. fst (get_popular_pages e days limit w) = Inr ps"
  by (auto simp: get_popular_pages_def split: sum.splits)

lemma render_csv:
  "lower format = ''csv'' \<Longrightarrow> render format data = CsvText (join_lines (csv_lines data))"
  by (simp add: render_def)

text \<open>
  Claim C4. Whenever the three handles can be opened and the format, in lower case, is
  \<open>csv\<close>, \<open>export_data\<close> returns the text whose lines are the six metric rows in their
  fixed order, an empty line, the header of the page table, and one row for each popular
  page; and reading the \<open>Total Visits\<close> row back from that text gives \<open>total_visits\<close>
  of the report that was exported.
\<close>

theorem csv_total_visits_roundtrip:
  assumes "fault e \<noteq> ConnectFails" and "fault er \<noteq> ConnectFails"
    and "fault ep \<noteq> ConnectFails" and "lower format = ''csv''"
  shows "\<exists>s ps csv.
     fst (get_daily_report er None (open_handle w)) = Inr s \<and>
     fst (get_popular_pages ep 30 20 (snd (get_daily_report er None (open_handle w)))) = Inr ps \<and>
     fst (export_data e er ep format w) = Inr (CsvText csv) \<and>
     csv = join_lines
       ([''Metric,Value'',
         ''Export Date,'' @ isoformat (now e 0),
         ''Total Visits,'' @ str_nat (r_total_visits s),
         ''Unique Visitors,'' @ str_nat (r_unique_visitors s),
         ''Page Views,'' @ str_nat (r_page_views s),
         ''Conversions,'' @ str_nat (r_conversions s),
         '''',
         ''Popular Pages,Views,Unique Visitors''] @
        map (\<lambda>p. fstr (pp_page_url p) @ '','' @ str_nat (pp_total_views p) @ '','' @
                  str_nat (pp_unique_visitors p)) ps) \<and>
     parse_total_visits csv = Some (r_total_visits s)"
proof -
  obtain s w1 where g1: "get_daily_report er None (open_handle w) = (Inr s, w1)"
    using get_daily_report_returns [OF assms(2), of None "open_handle w"]
    by (cases "get_daily_report er None (open_handle w)") auto
  obtain ps w2 where g2: "get_popular_pages ep 30 20 w1 = (Inr ps, w2)"
    using get_popular_pages_returns [OF assms(3), of 30 20 w1]
    by (cases "get_popular_pages ep 30 20 w1") auto
  have s: "fst (get_daily_report er None (open_handle w)) = Inr s"
    by (simp add: g1)
  have ps: "fst (get_popular_pages ep 30 20 (snd (get_daily_report er None (open_handle w)))) =
              Inr ps"
    by (simp add: g1 g2)
  let ?data = "\<lparr>export_date = isoformat (now e 0), summary = s, popular_pages = ps\<rparr>"
  have "export_data e er ep format w = (Inr (render format ?data), w2)"
    unfolding export_data_def using assms(1) by (simp add: g1 g2)
  then have ex: "fst (export_data e er ep format w) =
                   Inr (CsvText (join_lines (csv_lines ?data)))"
    by (simp add: render_csv [OF assms(4)])
  have "CHR 0x0A \<notin> set (export_date ?data)"
    using isoformat_no_newline [of "now e 0"] by simp
  from parse_total_visits_csv [OF this]
  have pt: "parse_total_visits (join_lines (csv_lines ?data)) = Some (r_total_visits s)"
    by simp
  have sh: "join_lines (csv_lines ?data) = join_lines
       ([''Metric,Value'',
         ''Export Date,'' @ isoformat (now e 0),
         ''Total Visits,'' @ str_nat (r_total_visits s),
         ''Unique Visitors,'' @ str_nat (r_unique_visitors s),
         ''Page Views,'' @ str_nat (r_page_views s),
         ''Conversions,'' @ str_nat (r_conversions s),
         '''',
         ''Popular Pages,Views,Unique Visitors''] @
        map (\<lambda>p. fstr (pp_page_url p) @ '','' @ str_nat (pp_total_views p) @ '','' @
                  str_nat (pp_unique_visitors p)) ps)"
    by (simp add: csv_lines_def)
  show ?thesis
    apply (rule exI [of _ s], rule exI [of _ ps], rule exI [of _ "join_lines (csv_lines ?data)"])
    using s ps ex pt sh by (intro conjI)
qed

lemma lower_CSV: "lower ''CSV'' = ''csv''"
  by code_simp

lemma strftime_clock0: "strftime_ymd (clock0 0) = ''2024-01-05''"
  by code_simp

lemma today_env0: "report_date env0 None = ''2024-01-05''"
  by (simp add: report_date_def env0_def strftime_clock0)

theorem csv_total_visits_roundtrip_witness:
  "fault env0 \<noteq> ConnectFails \<and> lower ''CSV'' = ''csv'' \<and>
   (\<exists>s csv. fst (get_daily_report env0 None (open_handle w1)) = Inr s \<and>
      r_total_visits s = 2 \<and>
      fst (export_data env0 env0 env0 ''CSV'' w1) = Inr (CsvText csv) \<and>
      parse_total_visits csv = Some 2)"
proof -
  have f: "fault env0 \<noteq> ConnectFails" and n: "fault env0 = NoFault"
    by (simp_all add: env0_def)
  from csv_total_visits_roundtrip [OF f f f lower_CSV, of w1]
  obtain s csv where s: "fst (get_daily_report env0 None (open_handle w1)) = Inr s"
    and e: "fst (export_data env0 env0 env0 ''CSV'' w1) = Inr (CsvText csv)"
    and p: "parse_total_visits csv = Some (r_total_visits s)"
    by blast
  have d: "store (open_handle w1) = db1" by (simp add: store_open_handle w1_def)
  from s have "s = fst (daily_queries (tie_order env0) NoFault ''2024-01-05'' db1)"
    unfolding get_daily_report_NoFault [OF n] today_env0 d by simp
  then have t: "r_total_visits s = 2"
    by (simp add: daily_queries_NoFault day_views_db1)
  from f lower_CSV s t e p show ?thesis by auto
qed

section \<open>What the daily report counts\<close>











end
